theory Spec2Isabelle
  imports Complex_Main "HOL-Library.AList" "HOL-Library.Log_Nat"
begin

section \<open>Float values\<close>

text \<open>
  The cells of a numeric pandas column are IEEE doubles. The model keeps the special
  values (not-a-number and the two infinities) as constructors and takes every finite
  value as an exact real: rounding, overflow and the sign of zero are not modelled.
  A nonzero finite value divided by zero is an infinity, zero divided by zero is
  \<open>NaN\<close>, and every comparison with \<open>NaN\<close> is false. The infinity has the sign of
  the numerator, as for a positive zero; the one place where the code divides by a
  zero, the last line of \<open>rsi\<close>, gives the same result for either infinity
  (lemma \<open>rsi_of_infinity\<close>).
\<close>

datatype fval = NaN | NegInf | Fin real | PosInf

fun fneg :: "fval \<Rightarrow> fval" where
  "fneg NaN = NaN"
| "fneg NegInf = PosInf"
| "fneg (Fin a) = Fin (- a)"
| "fneg PosInf = NegInf"

fun fadd :: "fval \<Rightarrow> fval \<Rightarrow> fval" where
  "fadd NaN _ = NaN"
| "fadd _ NaN = NaN"
| "fadd (Fin a) (Fin b) = Fin (a + b)"
| "fadd PosInf NegInf = NaN"
| "fadd NegInf PosInf = NaN"
| "fadd PosInf _ = PosInf"
| "fadd _ PosInf = PosInf"
| "fadd NegInf _ = NegInf"
| "fadd _ NegInf = NegInf"

definition fsub :: "fval \<Rightarrow> fval \<Rightarrow> fval" where
  "fsub a b = fadd a (fneg b)"

fun scale_inf :: "real \<Rightarrow> fval \<Rightarrow> fval" where
  "scale_inf a x = (if a = 0 then NaN else if 0 < a then x else fneg x)"

fun fmul :: "fval \<Rightarrow> fval \<Rightarrow> fval" where
  "fmul NaN _ = NaN"
| "fmul _ NaN = NaN"
| "fmul (Fin a) (Fin b) = Fin (a * b)"
| "fmul (Fin a) x = scale_inf a x"
| "fmul x (Fin b) = scale_inf b x"
| "fmul PosInf x = x"
| "fmul NegInf x = fneg x"

fun fdiv :: "fval \<Rightarrow> fval \<Rightarrow> fval" where
  "fdiv NaN _ = NaN"
| "fdiv _ NaN = NaN"
| "fdiv (Fin a) (Fin b) =
     (if b = 0 then (if a = 0 then NaN else if 0 < a then PosInf else NegInf)
      else Fin (a / b))"
| "fdiv (Fin a) _ = Fin 0"
| "fdiv x (Fin b) = (if 0 \<le> b then x else fneg x)"
| "fdiv _ _ = NaN"

fun fabs :: "fval \<Rightarrow> fval" where
  "fabs NaN = NaN"
| "fabs (Fin a) = Fin \<bar>a\<bar>"
| "fabs _ = PosInf"

fun flt :: "fval \<Rightarrow> fval \<Rightarrow> bool" where
  "flt NaN _ = False"
| "flt _ NaN = False"
| "flt (Fin a) (Fin b) = (a < b)"
| "flt NegInf NegInf = False"
| "flt NegInf _ = True"
| "flt _ NegInf = False"
| "flt PosInf _ = False"
| "flt _ PosInf = True"

definition fgt :: "fval \<Rightarrow> fval \<Rightarrow> bool" where
  "fgt a b = flt b a"

definition fle :: "fval \<Rightarrow> fval \<Rightarrow> bool" where
  "fle a b = (a \<noteq> NaN \<and> b \<noteq> NaN \<and> \<not> flt b a)"

section \<open>Series operations of pandas used by the indicators\<close>

datatype error = KeyError | TypeError | ValueError | IndexError | ZeroDivisionError | OSError

definition bindE :: "error + 'a \<Rightarrow> ('a \<Rightarrow> error + 'b) \<Rightarrow> error + 'b" where
  "bindE m f = (case m of Inl e \<Rightarrow> Inl e | Inr x \<Rightarrow> f x)"

text \<open>\<open>Series.diff()\<close> and \<open>Series.shift()\<close>: the first cell has no predecessor.\<close>

definition diff :: "fval list \<Rightarrow> fval list" where
  "diff xs = (case xs of [] \<Rightarrow> [] | _ # rest \<Rightarrow> NaN # map2 fsub rest xs)"

definition shift :: "fval list \<Rightarrow> fval list" where
  "shift xs = (case xs of [] \<Rightarrow> [] | _ # _ \<Rightarrow> NaN # butlast xs)"

text \<open>\<open>Series.clip(lower=lo)\<close> and \<open>Series.clip(upper=hi)\<close>: \<open>NaN\<close> stays.\<close>

definition clip_lower :: "real \<Rightarrow> fval \<Rightarrow> fval" where
  "clip_lower lo x = (if flt x (Fin lo) then Fin lo else x)"

definition clip_upper :: "real \<Rightarrow> fval \<Rightarrow> fval" where
  "clip_upper hi x = (if flt (Fin hi) x then Fin hi else x)"

text \<open>
  The window functions of pandas (\<open>ewm\<close>, \<open>rolling\<close>) turn an infinity into \<open>NaN\<close>
  before they aggregate.
\<close>

definition inf_to_nan :: "fval \<Rightarrow> fval" where
  "inf_to_nan x = (case x of Fin a \<Rightarrow> Fin a | _ \<Rightarrow> NaN)"

text \<open>
  \<open>Series.ewm(..., adjust=False).mean()\<close> with the defaults \<open>ignore_na=False\<close>,
  \<open>min_periods=0\<close>: the loop of pandas keeps the running average \<open>weighted\<close> and the
  weight \<open>old_wt\<close> of the past. Before the first observation the output is \<open>NaN\<close>; a
  \<open>NaN\<close> cell after it repeats the average and ages the weight. With \<open>com = 1\<close>, that
  is \<open>alpha = 1/2\<close>, the weight of the new observation is what the aged weight leaves.
\<close>

fun ewm_loop :: "real \<Rightarrow> fval \<Rightarrow> real \<Rightarrow> fval list \<Rightarrow> fval list" where
  "ewm_loop alpha weighted old_wt [] = []"
| "ewm_loop alpha weighted old_wt (cur # rest) =
     (if weighted \<noteq> NaN then
        (if cur \<noteq> NaN then
           (let ow = old_wt * (1 - alpha);
                new_wt = (if alpha = 1 / 2 then 1 - ow else alpha);
                w = (if weighted \<noteq> cur
                     then fdiv (fadd (fmul (Fin ow) weighted) (fmul (Fin new_wt) cur))
                            (Fin (ow + new_wt))
                     else weighted)
            in w # ewm_loop alpha w 1 rest)
         else weighted # ewm_loop alpha weighted (old_wt * (1 - alpha)) rest)
      else if cur \<noteq> NaN then cur # ewm_loop alpha cur old_wt rest
      else NaN # ewm_loop alpha weighted old_wt rest)"

definition ewm_mean :: "real \<Rightarrow> fval list \<Rightarrow> fval list" where
  "ewm_mean alpha xs =
     (case map inf_to_nan xs of [] \<Rightarrow> [] | x # rest \<Rightarrow> x # ewm_loop alpha x 1 rest)"

text \<open>
  \<open>Series.rolling(window).mean()\<close>: \<open>min_periods\<close> is the window, so the mean is
  defined once the trailing window is full and holds finite values only.
\<close>

fun fin_sum :: "fval list \<Rightarrow> real option" where
  "fin_sum [] = Some 0"
| "fin_sum (Fin a # xs) = (case fin_sum xs of None \<Rightarrow> None | Some s \<Rightarrow> Some (a + s))"
| "fin_sum (_ # xs) = None"

definition window_mean :: "nat \<Rightarrow> fval list \<Rightarrow> nat \<Rightarrow> fval" where
  "window_mean w xs i =
     (if w = 0 \<or> i + 1 < w then NaN
      else case fin_sum (take w (drop (i + 1 - w) xs)) of
             None \<Rightarrow> NaN
           | Some s \<Rightarrow> Fin (s / real w))"

definition rolling_mean :: "int \<Rightarrow> fval list \<Rightarrow> error + fval list" where
  "rolling_mean window xs =
     (if window < 0 then Inl ValueError
      else Inr (map (window_mean (nat window) xs) [0..<length xs]))"

section \<open>indicators.py\<close>

text \<open>A column of a DataFrame, and a Series, is a list of floats or a list of booleans.\<close>

datatype column = FloatCol "fval list" | BoolCol "bool list"

text \<open>
  Float arithmetic on a boolean column is outside the candle frames the code is written
  for; the model makes it an error, so that nothing can be concluded from it.
\<close>

definition floats :: "column \<Rightarrow> error + fval list" where
  "floats c = (case c of FloatCol xs \<Rightarrow> Inr xs | BoolCol _ \<Rightarrow> Inl TypeError)"

definition ema :: "column \<Rightarrow> int \<Rightarrow> error + column" where
  "ema series len =
     bindE (floats series) (\<lambda>xs.
       if len < 1 then Inl ValueError
       else Inr (FloatCol (ewm_mean (2 / (real_of_int len + 1)) xs)))"

definition rsi :: "column \<Rightarrow> int \<Rightarrow> error + column" where
  "rsi series len =
     bindE (floats series) (\<lambda>xs.
       let delta = diff xs;
           up = map (clip_lower 0) delta;
           down = map (\<lambda>d. fmul (Fin (- 1)) (clip_upper 0 d)) delta
       in if len = 0 then Inl ZeroDivisionError
          else if len < 0 then Inl ValueError
          else let ma_up = ewm_mean (1 / real_of_int len) up;
                   ma_down = ewm_mean (1 / real_of_int len) down;
                   rs = map2 fdiv ma_up ma_down
               in Inr (FloatCol (map (\<lambda>r. fsub (Fin 100) (fdiv (Fin 100) (fadd (Fin 1) r))) rs)))"

text \<open>\<open>DataFrame.max(axis=1)\<close> skips \<open>NaN\<close>.\<close>

definition fmax :: "fval \<Rightarrow> fval \<Rightarrow> fval" where
  "fmax a b = (if a = NaN then b else if b = NaN then a else if flt a b then b else a)"

definition volume_spike :: "column \<Rightarrow> int \<Rightarrow> real \<Rightarrow> error + column" where
  "volume_spike volume_series lookback multiplier =
     bindE (floats volume_series) (\<lambda>vs.
     bindE (rolling_mean lookback vs) (\<lambda>baseline.
       Inr (BoolCol (map2 fgt vs (map (\<lambda>b. fmul b (Fin multiplier)) baseline)))))"

section \<open>DataFrames in a store\<close>

text \<open>
  A DataFrame is a mutable object: its index (the row labels, here as the text that
  \<open>str\<close> gives) and its columns by name, in insertion order. The store holds the
  objects; a reference is a position in it. \<open>df.copy()\<close> allocates a new object and
  \<open>df[name] = series\<close> changes the object that \<open>df\<close> refers to.
\<close>

record frame =
  index :: "string list"
  cols :: "(string \<times> column) list"

type_synonym store = "frame list"

definition getitem :: "frame \<Rightarrow> string \<Rightarrow> error + column" where
  "getitem df key = (case map_of (cols df) key of None \<Rightarrow> Inl KeyError | Some c \<Rightarrow> Inr c)"

definition series :: "frame \<Rightarrow> string \<Rightarrow> error + fval list" where
  "series df key = bindE (getitem df key) floats"

definition copy :: "store \<Rightarrow> nat \<Rightarrow> nat \<times> store" where
  "copy st df = (length st, st @ [st ! df])"

definition setitem :: "store \<Rightarrow> nat \<Rightarrow> string \<Rightarrow> column \<Rightarrow> store" where
  "setitem st df key c = st[df := (st ! df)\<lparr>cols := AList.update key c (cols (st ! df))\<rparr>]"

definition atr :: "frame \<Rightarrow> int \<Rightarrow> error + column" where
  "atr df len =
     bindE (series df ''high'') (\<lambda>high.
     bindE (series df ''low'') (\<lambda>low.
     bindE (series df ''close'') (\<lambda>close.
       let high_low = map2 fsub high low;
           high_close = map fabs (map2 fsub high (shift close));
           low_close = map fabs (map2 fsub low (shift close));
           tr = map (\<lambda>(a, b, c). fmax (fmax a b) c) (zip high_low (zip high_close low_close))
       in if len = 0 then Inl ZeroDivisionError
          else if len < 0 then Inl ValueError
          else Inr (FloatCol (ewm_mean (1 / real_of_int len) tr)))))"

text \<open>The statement \<open>df[key] = value\<close>, whose right-hand side may raise, and the rest.\<close>

definition assign ::
  "store \<Rightarrow> nat \<Rightarrow> string \<Rightarrow> error + column \<Rightarrow> (store \<Rightarrow> (error + nat) \<times> store)
     \<Rightarrow> (error + nat) \<times> store" where
  "assign st df key val rest =
     (case val of Inl e \<Rightarrow> (Inl e, st) | Inr v \<Rightarrow> rest (setitem st df key v))"

definition compute_all :: "store \<Rightarrow> nat \<Rightarrow> (error + nat) \<times> store" where
  "compute_all st df0 =
     (let (df, st) = copy st df0 in
      assign st df ''ema9'' (bindE (getitem (st ! df) ''close'') (\<lambda>c. ema c 9)) (\<lambda>st.
      assign st df ''ema21'' (bindE (getitem (st ! df) ''close'') (\<lambda>c. ema c 21)) (\<lambda>st.
      assign st df ''rsi5'' (bindE (getitem (st ! df) ''close'') (\<lambda>c. rsi c 5)) (\<lambda>st.
      assign st df ''atr14'' (atr (st ! df) 14) (\<lambda>st.
      assign st df ''atr14_ma''
        (bindE (series (st ! df) ''atr14'') (\<lambda>a.
         bindE (rolling_mean 14 a) (\<lambda>m. Inr (FloatCol m)))) (\<lambda>st.
      assign st df ''atr_spike''
        (bindE (series (st ! df) ''atr14'') (\<lambda>a.
         bindE (series (st ! df) ''atr14_ma'') (\<lambda>m.
           Inr (BoolCol (map2 fgt a (map (\<lambda>x. fmul x (Fin 1.2)) m)))))) (\<lambda>st.
      assign st df ''vol_spike''
        (bindE (getitem (st ! df) ''volume'') (\<lambda>c. volume_spike c 10 1.5)) (\<lambda>st.
      (Inr df, st)))))))))"

section \<open>app.py: the signal\<close>

text \<open>
  \<open>df.iloc[i]\<close> is one row: its label and a cell for every column. A boolean cell
  compares and converts as the number 0 or 1, as Python's \<open>bool\<close> does.
\<close>

datatype cell = FloatCell fval | BoolCell bool

record row =
  name :: string
  cells :: "(string \<times> cell) list"

definition col_len :: "column \<Rightarrow> nat" where
  "col_len c = (case c of FloatCol xs \<Rightarrow> length xs | BoolCol bs \<Rightarrow> length bs)"

definition cell_at :: "column \<Rightarrow> nat \<Rightarrow> cell" where
  "cell_at c j = (case c of FloatCol xs \<Rightarrow> FloatCell (xs ! j) | BoolCol bs \<Rightarrow> BoolCell (bs ! j))"

definition iloc :: "frame \<Rightarrow> int \<Rightarrow> error + row" where
  "iloc df i =
     (let n = int (length (index df)); j = (if i < 0 then n + i else i)
      in if 0 \<le> j \<and> j < n \<and> list_all (\<lambda>(k, c). nat j < col_len c) (cols df)
         then Inr \<lparr>name = index df ! nat j,
                   cells = map (\<lambda>(k, c). (k, cell_at c (nat j))) (cols df)\<rparr>
         else Inl IndexError)"

definition row_get :: "row \<Rightarrow> string \<Rightarrow> error + cell" where
  "row_get r key = (case map_of (cells r) key of None \<Rightarrow> Inl KeyError | Some c \<Rightarrow> Inr c)"

definition num :: "cell \<Rightarrow> fval" where
  "num c = (case c of FloatCell x \<Rightarrow> x | BoolCell b \<Rightarrow> Fin (if b then 1 else 0))"

record report =
  signal :: bool
  ema_cross :: bool
  rsi5 :: fval
  vol_spike :: bool
  atr_spike :: bool
  close :: fval
  time :: string

text \<open>
  Lines 97 to 115 of \<open>detect_momentum_signal\<close>: the conditions on the last two rows
  and the report. The cells are read first (a missing column is a \<open>KeyError\<close>); the
  conditions themselves cannot raise.
\<close>

definition conditions :: "row \<Rightarrow> row \<Rightarrow> error + report" where
  "conditions last_row prev_row =
     bindE (row_get last_row ''ema9'') (\<lambda>last_ema9.
     bindE (row_get last_row ''ema21'') (\<lambda>last_ema21.
     bindE (row_get prev_row ''ema9'') (\<lambda>prev_ema9.
     bindE (row_get prev_row ''ema21'') (\<lambda>prev_ema21.
     bindE (row_get last_row ''rsi5'') (\<lambda>last_rsi5.
     bindE (row_get last_row ''vol_spike'') (\<lambda>last_vol_spike.
     bindE (row_get last_row ''atr_spike'') (\<lambda>last_atr_spike.
     bindE (row_get last_row ''close'') (\<lambda>last_close.
       let ema_cross = (fgt (num last_ema9) (num last_ema21)
                         \<and> fle (num prev_ema9) (num prev_ema21));
           rsi_burst = fgt (num last_rsi5) (Fin 55);
           vol_spike = (num last_vol_spike = Fin 1);
           atr_spike = (num last_atr_spike = Fin 1);
           price_above_emas = (fgt (num last_close) (num last_ema9)
                                \<and> fgt (num last_close) (num last_ema21));
           signal = ((ema_cross \<or> price_above_emas) \<and> rsi_burst \<and> vol_spike \<and> atr_spike)
       in Inr \<lparr>signal = signal, ema_cross = ema_cross, rsi5 = num last_rsi5,
                vol_spike = vol_spike, atr_spike = atr_spike, close = num last_close,
                time = name last_row\<rparr>))))))))"

text \<open>
  The result of \<open>detect_momentum_signal\<close> is \<open>None\<close> for the empty dict and the
  report otherwise; the argument is \<open>None\<close> or a reference to a DataFrame.
\<close>

definition detect_momentum_signal :: "store \<Rightarrow> nat option \<Rightarrow> (error + report option) \<times> store" where
  "detect_momentum_signal st df =
     (case df of
        None \<Rightarrow> (Inr None, st)
      | Some df0 \<Rightarrow>
          (if length (index (st ! df0)) < 30 then (Inr None, st)
           else (case compute_all st df0 of
                   (Inl e, st) \<Rightarrow> (Inl e, st)
                 | (Inr df, st) \<Rightarrow>
                     (bindE (iloc (st ! df) (- 1)) (\<lambda>last_row.
                      bindE (iloc (st ! df) (- 2)) (\<lambda>prev_row.
                      bindE (conditions last_row prev_row) (\<lambda>r. Inr (Some r)))), st))))"

section \<open>app.py: the alert storage\<close>

text \<open>
  \<open>alerts_sent.json\<close> is absent, or it exists and \<open>open\<close> fails, or it exists with a
  text that \<open>json.load\<close> turns into a value (\<open>Some\<close>) or rejects (\<open>None\<close>).
\<close>

datatype json = JNull | JBool bool | JNum real | JStr string
  | JArr "json list" | JObj "(string \<times> json) list"

datatype storage = Absent | Unopenable | Content "json option"

text \<open>
  A \<open>datetime\<close>: its calendar fields as microseconds since 1970-01-01T00:00:00 on its
  own clock, and the offset of its \<open>tzinfo\<close> from UTC in microseconds (\<open>None\<close> when naive).
\<close>

record datetime =
  micros :: int
  tzinfo :: "int option"

definition utc :: "int \<Rightarrow> datetime" where
  "utc t = \<lparr>micros = t, tzinfo = Some 0\<rparr>"

text \<open>\<open>a - b\<close> on datetimes, in microseconds: both aware or both naive.\<close>

definition minus_dt :: "datetime \<Rightarrow> datetime \<Rightarrow> error + int" where
  "minus_dt a b =
     (case (tzinfo a, tzinfo b) of
        (Some oa, Some ob) \<Rightarrow> Inr ((micros a - oa) - (micros b - ob))
      | (None, None) \<Rightarrow> Inr (micros a - micros b)
      | _ \<Rightarrow> Inl TypeError)"

text \<open>
  \<open>timedelta.total_seconds()\<close> divides the microseconds by \<open>10**6\<close> and returns the
  double nearest to the quotient (ties to even). \<open>to_double\<close> rounds a real to the
  grid of doubles around it, whose spacing is \<open>2 powi ulp_exp x\<close>: 52 binary places
  below the leading bit, and \<open>2 powi - 1074\<close> for the subnormal numbers. Overflow to
  infinity is not modelled; a \<open>timedelta\<close> stays far below it.
\<close>

definition round_even :: "real \<Rightarrow> int" where
  "round_even y =
     (let f = \<lfloor>y\<rfloor>; r = y - of_int f
      in if r < 1 / 2 then f else if 1 / 2 < r then f + 1 else if even f then f else f + 1)"

definition ulp_exp :: "real \<Rightarrow> int" where
  "ulp_exp x =
     (if 1 \<le> \<bar>x\<bar> then bitlen \<lfloor>\<bar>x\<bar>\<rfloor> - 53
      else max (- bitlen (\<lceil>1 / \<bar>x\<bar>\<rceil> - 1) - 52) (- 1074))"

definition to_double :: "real \<Rightarrow> real" where
  "to_double x =
     (if x = 0 then 0
      else of_int (round_even (x / 2 powi ulp_exp x)) * 2 powi ulp_exp x)"

definition total_seconds :: "int \<Rightarrow> real" where
  "total_seconds d = to_double (real_of_int d / 1000000)"

fun substring :: "string \<Rightarrow> string \<Rightarrow> bool" where
  "substring p [] = (p = [])"
| "substring p (c # s) = (take (length p) (c # s) = p \<or> substring p s)"

text \<open>\<open>symbol in data\<close>, \<open>data[symbol]\<close> and \<open>data[symbol] = ts\<close> on what the file holds.\<close>

fun contains :: "json \<Rightarrow> string \<Rightarrow> error + bool" where
  "contains (JObj d) k = Inr (k \<in> fst ` set d)"
| "contains (JArr xs) k = Inr (JStr k \<in> set xs)"
| "contains (JStr s) k = Inr (substring k s)"
| "contains _ k = Inl TypeError"

fun subscript :: "json \<Rightarrow> string \<Rightarrow> error + json" where
  "subscript (JObj d) k = (case map_of d k of None \<Rightarrow> Inl KeyError | Some v \<Rightarrow> Inr v)"
| "subscript _ k = Inl TypeError"

fun store_item :: "json \<Rightarrow> string \<Rightarrow> json \<Rightarrow> error + json" where
  "store_item (JObj d) k v = Inr (JObj (AList.update k v d))"
| "store_item _ k v = Inl TypeError"

text \<open>
  \<open>datetime.fromisoformat\<close> and \<open>datetime.isoformat\<close> are parameters: the parser
  gives \<open>None\<close> where Python raises \<open>ValueError\<close>.
\<close>

definition parse_ts :: "(string \<Rightarrow> datetime option) \<Rightarrow> json \<Rightarrow> error + datetime" where
  "parse_ts fromisoformat v =
     (case v of
        JStr s \<Rightarrow> (case fromisoformat s of None \<Rightarrow> Inl ValueError | Some d \<Rightarrow> Inr d)
      | _ \<Rightarrow> Inl TypeError)"

definition persist_alert :: "storage \<Rightarrow> string \<Rightarrow> string \<Rightarrow> error + storage" where
  "persist_alert f symbol ts =
     (case f of
        Unopenable \<Rightarrow> Inl OSError
      | _ \<Rightarrow>
          let data = (case f of Content (Some d) \<Rightarrow> d | _ \<Rightarrow> JObj [])
          in bindE (store_item data symbol (JStr ts)) (\<lambda>data. Inr (Content (Some data))))"

definition was_alert_sent_recent ::
  "(string \<Rightarrow> datetime option) \<Rightarrow> datetime \<Rightarrow> storage \<Rightarrow> string \<Rightarrow> int \<Rightarrow> error + bool" where
  "was_alert_sent_recent fromisoformat now f symbol minutes =
     (case f of
        Absent \<Rightarrow> Inr False
      | Unopenable \<Rightarrow> Inl OSError
      | Content None \<Rightarrow> Inr False
      | Content (Some data) \<Rightarrow>
          bindE (contains data symbol) (\<lambda>present.
            if \<not> present then Inr False
            else bindE (subscript data symbol) (\<lambda>v.
                 bindE (parse_ts fromisoformat v) (\<lambda>last_ts.
                 bindE (minus_dt now (last_ts\<lparr>tzinfo := Some 0\<rparr>)) (\<lambda>diff.
                   Inr (total_seconds diff \<le> real_of_int (minutes * 60)))))))"

section \<open>telegram_alerts.py\<close>

text \<open>
  \<open>requests.post\<close> answers with a status code or raises. The second component of the
  result lists the requests that were posted.
\<close>

datatype response = Status int | Raised

record payload =
  p_chat_id :: string
  p_text :: string
  p_parse_mode :: string

definition send_telegram_message ::
  "(string \<Rightarrow> payload \<Rightarrow> response) \<Rightarrow> string option \<Rightarrow> string option \<Rightarrow> string
     \<Rightarrow> (error + bool) \<times> (string \<times> payload) list" where
  "send_telegram_message post bot_token chat_id text =
     (case (bot_token, chat_id) of
        (Some token, Some chat) \<Rightarrow>
          if token = [] \<or> chat = [] then (Inl ValueError, [])
          else let url = ''https://api.telegram.org/bot'' @ token @ ''/sendMessage'';
                   payload = \<lparr>p_chat_id = chat, p_text = text, p_parse_mode = ''HTML''\<rparr>
               in (case post url payload of
                     Status code \<Rightarrow> (Inr (code = 200), [(url, payload)])
                   | Raised \<Rightarrow> (Inr False, [(url, payload)]))
      | _ \<Rightarrow> (Inl ValueError, []))"

section \<open>app.py: the check cycle\<close>

text \<open>
  What \<open>run_check\<close> reads from outside: the configuration, and the answers of the
  candle source, of Telegram and of the clock, each by the number of calls made so far.
  \<open>render\<close> is the f-string of the message.
\<close>

record env =
  telegram_bot_token :: "string option"
  telegram_chat_id :: "string option"
  alert_minutes_lockout :: int
  fetch_candles :: "nat \<Rightarrow> string \<Rightarrow> string + frame option"
  http_post :: "nat \<Rightarrow> string \<Rightarrow> payload \<Rightarrow> response"
  now_utc :: "nat \<Rightarrow> int"
  fromisoformat :: "string \<Rightarrow> datetime option"
  isoformat :: "datetime \<Rightarrow> string"
  render :: "string \<Rightarrow> report \<Rightarrow> string"

record world =
  alerts_file :: storage
  posted :: "(string \<times> payload) list"
  shown :: "string list"
  calls :: nat

definition tick :: "world \<Rightarrow> world" where
  "tick w = w\<lparr>calls := calls w + 1\<rparr>"

datatype entry = ErrorEntry string string | SignalEntry string "report option"

fun entry_symbol :: "entry \<Rightarrow> string" where
  "entry_symbol (ErrorEntry symbol e) = symbol"
| "entry_symbol (SignalEntry symbol sig) = symbol"

text \<open>Lines 149 to 169: the alert for a symbol whose report has \<open>signal\<close> true.\<close>

definition alert :: "env \<Rightarrow> world \<Rightarrow> string \<Rightarrow> report \<Rightarrow> (error + unit) \<times> world" where
  "alert e w symbol sig =
     (case was_alert_sent_recent (fromisoformat e) (utc (now_utc e (calls w))) (alerts_file w)
             symbol (alert_minutes_lockout e) of
        Inl err \<Rightarrow> (Inl err, tick w)
      | Inr True \<Rightarrow> (Inr (), tick w)
      | Inr False \<Rightarrow>
          let w = tick w;
              msg = render e symbol sig;
              (res, reqs) = send_telegram_message (http_post e (calls w)) (telegram_bot_token e)
                              (telegram_chat_id e) msg;
              w = (tick w)\<lparr>posted := posted w @ reqs\<rparr>;
              (sent, w) = (case res of
                             Inl err \<Rightarrow> (False, w\<lparr>shown := shown w @ [symbol]\<rparr>)
                           | Inr b \<Rightarrow> (b, w))
          in if sent
             then (case persist_alert (alerts_file w) symbol
                          (isoformat e (utc (now_utc e (calls w)))) of
                     Inl err \<Rightarrow> (Inl err, tick w)
                   | Inr f \<Rightarrow> (Inr (), (tick w)\<lparr>alerts_file := f\<rparr>))
             else (Inr (), w))"

text \<open>The body of the loop of \<open>run_check\<close> for one symbol: its entry, or an exception.\<close>

definition check_symbol :: "env \<Rightarrow> world \<Rightarrow> string \<Rightarrow> (error + entry) \<times> world" where
  "check_symbol e w symbol =
     (case fetch_candles e (calls w) symbol of
        Inl msg \<Rightarrow> (Inr (ErrorEntry symbol msg), tick w)
      | Inr df \<Rightarrow>
          let w = tick w in
          (case fst (detect_momentum_signal (case df of None \<Rightarrow> [] | Some f \<Rightarrow> [f])
                       (case df of None \<Rightarrow> None | Some f \<Rightarrow> Some 0)) of
             Inl err \<Rightarrow> (Inl err, w)
           | Inr None \<Rightarrow> (Inr (SignalEntry symbol None), w)
           | Inr (Some sig) \<Rightarrow>
               if signal sig
               then (case alert e w symbol sig of
                       (Inl err, w) \<Rightarrow> (Inl err, w)
                     | (Inr _, w) \<Rightarrow> (Inr (SignalEntry symbol (Some sig)), w))
               else (Inr (SignalEntry symbol (Some sig)), w)))"

fun run_loop :: "env \<Rightarrow> world \<Rightarrow> entry list \<Rightarrow> string list \<Rightarrow> (error + entry list) \<times> world" where
  "run_loop e w results [] = (Inr results, w)"
| "run_loop e w results (symbol # symbols) =
     (case check_symbol e w symbol of
        (Inl err, w) \<Rightarrow> (Inl err, w)
      | (Inr r, w) \<Rightarrow> run_loop e w (results @ [r]) symbols)"

definition run_check :: "env \<Rightarrow> world \<Rightarrow> string list \<Rightarrow> (error + entry list) \<times> world" where
  "run_check e w symbols = run_loop e w [] symbols"

section \<open>Candle frames\<close>

text \<open>
  A DataFrame has one cell per row in every column. A candle frame is one whose columns
  \<open>high\<close>, \<open>low\<close>, \<open>close\<close> and \<open>volume\<close>, the ones \<open>compute_all\<close> reads, are
  float columns. \<open>fcol\<close> and \<open>bcol\<close> read a column of a frame in the statements below.
\<close>

definition frame_ok :: "frame \<Rightarrow> bool" where
  "frame_ok df = list_all (\<lambda>(k, c). col_len c = length (index df)) (cols df)"

definition is_float :: "frame \<Rightarrow> string \<Rightarrow> bool" where
  "is_float df key = (case map_of (cols df) key of Some (FloatCol _) \<Rightarrow> True | _ \<Rightarrow> False)"

definition candle_frame :: "frame \<Rightarrow> bool" where
  "candle_frame df = (frame_ok df \<and> is_float df ''high'' \<and> is_float df ''low''
     \<and> is_float df ''close'' \<and> is_float df ''volume'')"

definition fcol :: "frame \<Rightarrow> string \<Rightarrow> fval list" where
  "fcol df key = (case map_of (cols df) key of Some (FloatCol xs) \<Rightarrow> xs | _ \<Rightarrow> [])"

definition bcol :: "frame \<Rightarrow> string \<Rightarrow> bool list" where
  "bcol df key = (case map_of (cols df) key of Some (BoolCol bs) \<Rightarrow> bs | _ \<Rightarrow> [])"

text \<open>
  Two frames of 30 candles for the examples: a flat market with a breakout on the last
  bar, and a flat market.
\<close>

definition demo_frame :: frame where
  "demo_frame =
     \<lparr>index = replicate 29 ''earlier'' @ [''latest''],
      cols = [(''open'', FloatCol (map Fin (replicate 30 100))),
              (''high'', FloatCol (map Fin (replicate 29 (201 / 2) @ [111]))),
              (''low'', FloatCol (map Fin (replicate 29 (199 / 2) @ [100]))),
              (''close'', FloatCol (map Fin (replicate 29 100 @ [110]))),
              (''volume'', FloatCol (map Fin (replicate 29 10 @ [100])))]\<rparr>"

definition flat_frame :: frame where
  "flat_frame =
     \<lparr>index = replicate 29 ''earlier'' @ [''latest''],
      cols = [(''high'', FloatCol (map Fin (replicate 30 101))),
              (''low'', FloatCol (map Fin (replicate 30 99))),
              (''close'', FloatCol (map Fin (replicate 30 100))),
              (''volume'', FloatCol (map Fin (replicate 30 10)))]\<rparr>"

text \<open>
  The ranges the proofs about \<open>rsi\<close> use: a value that is not negative (\<open>NaN\<close> and
  \<open>+inf\<close> included), a positive finite value, and a value that is \<open>NaN\<close> or lies in
  [0, 100]. \<open>rsi_of\<close> is the last line of \<open>rsi\<close> for one row.
\<close>

fun nn :: "fval \<Rightarrow> bool" where
  "nn NegInf = False"
| "nn (Fin a) = (0 \<le> a)"
| "nn _ = True"

fun fpos :: "fval \<Rightarrow> bool" where
  "fpos (Fin a) = (0 < a)"
| "fpos _ = False"

fun in_rsi_range :: "fval \<Rightarrow> bool" where
  "in_rsi_range NaN = True"
| "in_rsi_range (Fin a) = (0 \<le> a \<and> a \<le> 100)"
| "in_rsi_range _ = False"

definition rsi_of :: "fval \<Rightarrow> fval \<Rightarrow> fval" where
  "rsi_of u d = fsub (Fin 100) (fdiv (Fin 100) (fadd (Fin 1) (fdiv u d)))"

text \<open>
  Storage that \<open>persist_alert\<close> itself can have written: absent, unparseable, or an
  object whose values are strings that \<open>fromisoformat\<close> accepts. \<open>records\<close> are the
  entries \<open>persist_alert\<close> starts from. A source is good when every frame it returns
  is a candle frame or too short to be looked at; \<open>round_trip\<close> says that the parser
  accepts what \<open>isoformat\<close> prints.
\<close>

fun good_record :: "(string \<Rightarrow> datetime option) \<Rightarrow> json \<Rightarrow> bool" where
  "good_record fromiso (JStr s) = (fromiso s \<noteq> None)"
| "good_record fromiso _ = False"

fun good_storage :: "(string \<Rightarrow> datetime option) \<Rightarrow> storage \<Rightarrow> bool" where
  "good_storage fromiso Absent = True"
| "good_storage fromiso Unopenable = False"
| "good_storage fromiso (Content None) = True"
| "good_storage fromiso (Content (Some (JObj d))) = list_all (\<lambda>(k, v). good_record fromiso v) d"
| "good_storage fromiso (Content (Some _)) = False"

fun records :: "storage \<Rightarrow> (string \<times> json) list option" where
  "records Absent = Some []"
| "records (Content None) = Some []"
| "records (Content (Some (JObj d))) = Some d"
| "records _ = None"

definition good_source :: "env \<Rightarrow> bool" where
  "good_source e =
     (\<forall>k s f. fetch_candles e k s = Inr (Some f) \<longrightarrow> length (index f) < 30 \<or> candle_frame f)"

definition round_trip :: "env \<Rightarrow> bool" where
  "round_trip e = (\<forall>d. fromisoformat e (isoformat e d) \<noteq> None)"

text \<open>
  An environment for the examples: the candle source knows two symbols, Telegram gives
  the same answer to every request, and the clock stands at 2024-01-01T01:00:00 UTC,
  which \<open>isoformat\<close> prints. The parser accepts the three ISO texts the examples
  store, with the values Python gives them, and rejects every other text.
\<close>

definition sample_fromisoformat :: "string \<Rightarrow> datetime option" where
  "sample_fromisoformat s =
     (if s = ''2024-01-01T00:00:00+00:00'' then Some \<lparr>micros = 1704067200000000, tzinfo = Some 0\<rparr>
      else if s = ''2024-01-01T00:00:00'' then Some \<lparr>micros = 1704067200000000, tzinfo = None\<rparr>
      else if s = ''2024-01-01T01:00:00+00:00'' then Some \<lparr>micros = 1704070800000000, tzinfo = Some 0\<rparr>
      else if s = ''2024-01-01T05:30:00+05:30''
        then Some \<lparr>micros = 1704087000000000, tzinfo = Some 19800000000\<rparr>
      else None)"

definition sample_env :: "response \<Rightarrow> env" where
  "sample_env answer =
     \<lparr>telegram_bot_token = Some ''123:abc'', telegram_chat_id = Some ''42'',
      alert_minutes_lockout = 30,
      fetch_candles = (\<lambda>k symbol. if symbol = ''NIFTY'' then Inr (Some demo_frame)
                        else if symbol = ''FLAT'' then Inr (Some flat_frame)
                        else Inl ''no data''),
      http_post = (\<lambda>k url p. answer),
      now_utc = (\<lambda>k. 1704070800000000),
      fromisoformat = sample_fromisoformat,
      isoformat = (\<lambda>d. ''2024-01-01T01:00:00+00:00''),
      render = (\<lambda>symbol sig. symbol @ '' Momentum Breakout'')\<rparr>"

definition sample_world :: "storage \<Rightarrow> world" where
  "sample_world f = \<lparr>alerts_file = f, posted = [], shown = [], calls = 0\<rparr>"

section \<open>Running the indicators\<close>

lemma length_ewm_loop: "length (ewm_loop alpha w ow xs) = length xs"
  by (induction xs arbitrary: w ow) (simp_all add: Let_def)

lemma ewm_loop_finite_step:
  "ewm_loop alpha (Fin y) 1 (Fin x # rest) =
     Fin (alpha * x + (1 - alpha) * y) # ewm_loop alpha (Fin (alpha * x + (1 - alpha) * y)) 1 rest"
  by (cases "alpha = 1 / 2") (simp_all add: Let_def algebra_simps)

lemma length_ewm_mean: "length (ewm_mean alpha xs) = length xs"
  by (cases xs) (simp_all add: ewm_mean_def length_ewm_loop)

lemma ewm_mean_NaN_Cons:
  "map inf_to_nan ys = ys \<Longrightarrow> ewm_mean alpha (NaN # ys) = NaN # ewm_loop alpha NaN 1 ys"
  by (simp add: ewm_mean_def inf_to_nan_def)

lemma length_diff: "length (diff xs) = length xs"
  by (cases xs) (simp_all add: diff_def)

lemma length_shift: "length (shift xs) = length xs"
  by (cases xs) (simp_all add: shift_def)

lemma ema_run:
  "1 \<le> n \<Longrightarrow> \<exists>ys. ema (FloatCol xs) n = Inr (FloatCol ys) \<and> length ys = length xs"
  by (simp add: ema_def floats_def bindE_def length_ewm_mean)

lemma rsi_run:
  "0 < n \<Longrightarrow> \<exists>ys. rsi (FloatCol xs) n = Inr (FloatCol ys) \<and> length ys = length xs"
  by (simp add: rsi_def floats_def bindE_def Let_def length_ewm_mean length_diff)

lemma map_of_frame_ok:
  "frame_ok df \<Longrightarrow> map_of (cols df) key = Some c \<Longrightarrow> col_len c = length (index df)"
  unfolding frame_ok_def list_all_iff by (auto dest: map_of_SomeD)

lemma is_floatD:
  "is_float df key \<Longrightarrow> frame_ok df \<Longrightarrow>
     map_of (cols df) key = Some (FloatCol (fcol df key)) \<and> length (fcol df key) = length (index df)"
  by (auto simp: is_float_def fcol_def col_len_def split: option.splits column.splits
      dest: map_of_frame_ok)

lemma atr_run:
  assumes "map_of (cols df) ''high'' = Some (FloatCol hi)"
    and "map_of (cols df) ''low'' = Some (FloatCol lo)"
    and "map_of (cols df) ''close'' = Some (FloatCol cl)"
    and "length hi = n" "length lo = n" "length cl = n" "0 < len"
  shows "\<exists>ys. atr df len = Inr (FloatCol ys) \<and> length ys = n"
  using assms
  by (simp add: atr_def series_def getitem_def floats_def bindE_def Let_def length_ewm_mean
      length_shift)

lemma rolling_mean_run:
  "0 \<le> w \<Longrightarrow> \<exists>ys. rolling_mean w xs = Inr ys \<and> length ys = length xs"
  by (simp add: rolling_mean_def)

lemma volume_spike_run:
  "0 \<le> w \<Longrightarrow> \<exists>bs. volume_spike (FloatCol xs) w m = Inr (BoolCol bs) \<and> length bs = length xs"
  by (simp add: volume_spike_def rolling_mean_def floats_def bindE_def)

lemma list_all_update:
  "list_all P al \<Longrightarrow> P (k, v) \<Longrightarrow> list_all P (AList.update k v al)"
  by (induction al) auto

lemma compute_all_run:
  assumes a: "a < length st" and cf: "candle_frame (st ! a)"
  obtains e9 e21 r5 a14 m14 asp vsp where
    "compute_all st a = (Inr (length st), st @ [(st ! a)\<lparr>cols :=
        AList.update ''vol_spike'' (BoolCol vsp)
       (AList.update ''atr_spike'' (BoolCol asp)
       (AList.update ''atr14_ma'' (FloatCol m14)
       (AList.update ''atr14'' (FloatCol a14)
       (AList.update ''rsi5'' (FloatCol r5)
       (AList.update ''ema21'' (FloatCol e21)
       (AList.update ''ema9'' (FloatCol e9) (cols (st ! a))))))))\<rparr>])"
    and "ema (FloatCol (fcol (st ! a) ''close'')) 9 = Inr (FloatCol e9)"
    and "ema (FloatCol (fcol (st ! a) ''close'')) 21 = Inr (FloatCol e21)"
    and "rsi (FloatCol (fcol (st ! a) ''close'')) 5 = Inr (FloatCol r5)"
    and "atr (st ! a) 14 = Inr (FloatCol a14)"
    and "rolling_mean 14 a14 = Inr m14"
    and "asp = map2 fgt a14 (map (\<lambda>x. fmul x (Fin (6 / 5))) m14)"
    and "volume_spike (FloatCol (fcol (st ! a) ''volume'')) 10 (3 / 2) = Inr (BoolCol vsp)"
    and "length e9 = length (index (st ! a))" and "length e21 = length (index (st ! a))"
    and "length r5 = length (index (st ! a))" and "length a14 = length (index (st ! a))"
    and "length m14 = length (index (st ! a))" and "length asp = length (index (st ! a))"
    and "length vsp = length (index (st ! a))"
proof -
  let ?f = "st ! a" and ?n = "length (index (st ! a))"
  from cf have ok: "frame_ok ?f" by (simp add: candle_frame_def)
  from cf ok have cl: "map_of (cols ?f) ''close'' = Some (FloatCol (fcol ?f ''close''))"
      "length (fcol ?f ''close'') = ?n"
    by (simp_all add: candle_frame_def is_floatD)
  from cf ok have hi: "map_of (cols ?f) ''high'' = Some (FloatCol (fcol ?f ''high''))"
      "length (fcol ?f ''high'') = ?n"
    by (simp_all add: candle_frame_def is_floatD)
  from cf ok have lo: "map_of (cols ?f) ''low'' = Some (FloatCol (fcol ?f ''low''))"
      "length (fcol ?f ''low'') = ?n"
    by (simp_all add: candle_frame_def is_floatD)
  from cf ok have vo: "map_of (cols ?f) ''volume'' = Some (FloatCol (fcol ?f ''volume''))"
      "length (fcol ?f ''volume'') = ?n"
    by (simp_all add: candle_frame_def is_floatD)
  obtain e9 where e9: "ema (FloatCol (fcol ?f ''close'')) 9 = Inr (FloatCol e9)" "length e9 = ?n"
    using ema_run [of 9 "fcol ?f ''close''"] cl by auto
  obtain e21 where e21: "ema (FloatCol (fcol ?f ''close'')) 21 = Inr (FloatCol e21)" "length e21 = ?n"
    using ema_run [of 21 "fcol ?f ''close''"] cl by auto
  obtain r5 where r5: "rsi (FloatCol (fcol ?f ''close'')) 5 = Inr (FloatCol r5)" "length r5 = ?n"
    using rsi_run [of 5 "fcol ?f ''close''"] cl by auto
  obtain a14 where a14: "atr ?f 14 = Inr (FloatCol a14)" "length a14 = ?n"
    using atr_run [OF hi(1) lo(1) cl(1) hi(2) lo(2) cl(2), of 14] by auto
  obtain m14 where m14: "rolling_mean 14 a14 = Inr m14" "length m14 = ?n"
    using rolling_mean_run [of 14 a14] a14 by auto
  define asp where "asp = map2 fgt a14 (map (\<lambda>x. fmul x (Fin (6 / 5))) m14)"
  have asp: "length asp = ?n" by (simp add: asp_def a14 m14)
  obtain vsp where vsp: "volume_spike (FloatCol (fcol ?f ''volume'')) 10 (3 / 2) = Inr (BoolCol vsp)"
      "length vsp = ?n"
    using volume_spike_run [of 10 "fcol ?f ''volume''" "3 / 2"] vo by auto
  have atr_eq: "atr (?f\<lparr>cols := AList.update ''rsi5'' c3 (AList.update ''ema21'' c2
      (AList.update ''ema9'' c1 (cols ?f)))\<rparr>) 14 = atr ?f 14" for c1 c2 c3
    by (simp add: atr_def series_def getitem_def update_conv')
  have run: "compute_all st a = (Inr (length st), st @ [?f\<lparr>cols :=
        AList.update ''vol_spike'' (BoolCol vsp)
       (AList.update ''atr_spike'' (BoolCol asp)
       (AList.update ''atr14_ma'' (FloatCol m14)
       (AList.update ''atr14'' (FloatCol a14)
       (AList.update ''rsi5'' (FloatCol r5)
       (AList.update ''ema21'' (FloatCol e21)
       (AList.update ''ema9'' (FloatCol e9) (cols ?f)))))))\<rparr>])"
    by (simp add: compute_all_def assign_def copy_def setitem_def getitem_def series_def
        floats_def bindE_def update_conv' cl vo e9 e21 r5 atr_eq a14 m14 vsp asp_def)
  show thesis
    by (rule that [OF run e9(1) e21(1) r5(1) a14(1) m14(1) asp_def vsp(1) e9(2) e21(2) r5(2)
          a14(2) m14(2) asp vsp(2)])
qed

lemma iloc_run:
  assumes "frame_ok df" and "0 < k" and "k \<le> length (index df)"
  shows "iloc df (- int k) = Inr \<lparr>name = index df ! (length (index df) - k),
           cells = map (\<lambda>(key, c). (key, cell_at c (length (index df) - k))) (cols df)\<rparr>"
proof -
  have j: "nat (int (length (index df)) - int k) = length (index df) - k"
    using assms by simp
  have "list_all (\<lambda>(key, c). length (index df) - k < col_len c) (cols df)"
    using assms unfolding frame_ok_def list_all_iff by auto
  then show ?thesis
    using assms by (simp add: iloc_def Let_def j)
qed

lemma row_get_cells:
  "row_get \<lparr>name = l, cells = map (\<lambda>(key, c). (key, cell_at c j)) cs\<rparr> key =
     (case map_of cs key of None \<Rightarrow> Inl KeyError | Some c \<Rightarrow> Inr (cell_at c j))"
  by (simp add: row_get_def map_of_map split: option.splits)

lemma snd_assign_ext:
  assumes "\<And>g. \<exists>g'. snd (rest (st @ [g])) = st @ [g']"
  shows "\<exists>g'. snd (assign (st @ [f]) (length st) key val rest) = st @ [g']"
  using assms by (cases val) (simp_all add: assign_def setitem_def)

lemma snd_compute_all:
  "\<exists>g. snd (compute_all st a) = st @ [g]"
  unfolding compute_all_def copy_def split_conv Let_def
  by (intro snd_assign_ext) simp

lemma snd_detect:
  "take (length st) (snd (detect_momentum_signal st df)) = st"
proof (cases df)
  case None
  then show ?thesis by (simp add: detect_momentum_signal_def)
next
  case (Some a)
  obtain g where g: "snd (compute_all st a) = st @ [g]"
    using snd_compute_all by blast
  show ?thesis
    using g Some
    by (cases "compute_all st a") (auto simp: detect_momentum_signal_def split: sum.splits)
qed

lemma num_bool_eq: "(num (BoolCell b) = Fin 1) = b"
  by (simp add: num_def)

lemma detect_run:
  assumes a: "a < length st" and cf: "candle_frame (st ! a)"
    and n: "30 \<le> length (index (st ! a))"
  obtains e9 e21 r5 a14 m14 vsp f r where
    "compute_all st a = (Inr (length st), st @ [f])"
    and "index f = index (st ! a)"
    and "fcol f ''close'' = fcol (st ! a) ''close''"
    and "fcol f ''volume'' = fcol (st ! a) ''volume''"
    and "fcol f ''ema9'' = e9" and "fcol f ''ema21'' = e21" and "fcol f ''rsi5'' = r5"
    and "fcol f ''atr14'' = a14" and "fcol f ''atr14_ma'' = m14"
    and "bcol f ''atr_spike'' = map2 fgt a14 (map (\<lambda>x. fmul x (Fin (6 / 5))) m14)"
    and "bcol f ''vol_spike'' = vsp"
    and "ema (FloatCol (fcol (st ! a) ''close'')) 9 = Inr (FloatCol e9)"
    and "ema (FloatCol (fcol (st ! a) ''close'')) 21 = Inr (FloatCol e21)"
    and "rsi (FloatCol (fcol (st ! a) ''close'')) 5 = Inr (FloatCol r5)"
    and "atr (st ! a) 14 = Inr (FloatCol a14)"
    and "rolling_mean 14 a14 = Inr m14"
    and "volume_spike (FloatCol (fcol (st ! a) ''volume'')) 10 (3 / 2) = Inr (BoolCol vsp)"
    and "length a14 = length (index f)"
    and "length (fcol f ''volume'') = length (index f)"
    and "detect_momentum_signal st (Some a) = (Inr (Some r), st @ [f])"
    and "signal r =
          ((fgt (fcol f ''ema9'' ! (length (index f) - 1)) (fcol f ''ema21'' ! (length (index f) - 1))
            \<and> fle (fcol f ''ema9'' ! (length (index f) - 2)) (fcol f ''ema21'' ! (length (index f) - 2))
            \<or> fgt (fcol f ''close'' ! (length (index f) - 1)) (fcol f ''ema9'' ! (length (index f) - 1))
            \<and> fgt (fcol f ''close'' ! (length (index f) - 1)) (fcol f ''ema21'' ! (length (index f) - 1)))
           \<and> fgt (fcol f ''rsi5'' ! (length (index f) - 1)) (Fin 55)
           \<and> bcol f ''vol_spike'' ! (length (index f) - 1)
           \<and> bcol f ''atr_spike'' ! (length (index f) - 1))"
    and "ema_cross r =
          (fgt (fcol f ''ema9'' ! (length (index f) - 1)) (fcol f ''ema21'' ! (length (index f) - 1))
            \<and> fle (fcol f ''ema9'' ! (length (index f) - 2)) (fcol f ''ema21'' ! (length (index f) - 2)))"
    and "rsi5 r = fcol f ''rsi5'' ! (length (index f) - 1)"
    and "vol_spike r = bcol f ''vol_spike'' ! (length (index f) - 1)"
    and "atr_spike r = bcol f ''atr_spike'' ! (length (index f) - 1)"
    and "close r = fcol f ''close'' ! (length (index f) - 1)"
    and "time r = index f ! (length (index f) - 1)"
proof -
  let ?n = "length (index (st ! a))"
  from cf have ok: "frame_ok (st ! a)" by (simp add: candle_frame_def)
  obtain e9 e21 r5 a14 m14 asp vsp where
    run: "compute_all st a = (Inr (length st), st @ [(st ! a)\<lparr>cols :=
        AList.update ''vol_spike'' (BoolCol vsp)
       (AList.update ''atr_spike'' (BoolCol asp)
       (AList.update ''atr14_ma'' (FloatCol m14)
       (AList.update ''atr14'' (FloatCol a14)
       (AList.update ''rsi5'' (FloatCol r5)
       (AList.update ''ema21'' (FloatCol e21)
       (AList.update ''ema9'' (FloatCol e9) (cols (st ! a))))))))\<rparr>])"
    and ind: "ema (FloatCol (fcol (st ! a) ''close'')) 9 = Inr (FloatCol e9)"
      "ema (FloatCol (fcol (st ! a) ''close'')) 21 = Inr (FloatCol e21)"
      "rsi (FloatCol (fcol (st ! a) ''close'')) 5 = Inr (FloatCol r5)"
      "atr (st ! a) 14 = Inr (FloatCol a14)"
      "rolling_mean 14 a14 = Inr m14"
      "asp = map2 fgt a14 (map (\<lambda>x. fmul x (Fin (6 / 5))) m14)"
      "volume_spike (FloatCol (fcol (st ! a) ''volume'')) 10 (3 / 2) = Inr (BoolCol vsp)"
    and len: "length e9 = ?n" "length e21 = ?n" "length r5 = ?n" "length a14 = ?n"
      "length m14 = ?n" "length asp = ?n" "length vsp = ?n"
    using compute_all_run [OF a cf] by metis
  define f where "f = (st ! a)\<lparr>cols :=
        AList.update ''vol_spike'' (BoolCol vsp)
       (AList.update ''atr_spike'' (BoolCol asp)
       (AList.update ''atr14_ma'' (FloatCol m14)
       (AList.update ''atr14'' (FloatCol a14)
       (AList.update ''rsi5'' (FloatCol r5)
       (AList.update ''ema21'' (FloatCol e21)
       (AList.update ''ema9'' (FloatCol e9) (cols (st ! a))))))))\<rparr>"
  have idx: "index f = index (st ! a)" by (simp add: f_def)
  have okf: "frame_ok f"
    using ok unfolding frame_ok_def f_def
    by (simp add: list_all_update col_len_def len)
  from cf ok have cl: "map_of (cols (st ! a)) ''close'' = Some (FloatCol (fcol (st ! a) ''close''))"
    by (simp add: candle_frame_def is_floatD)
  from cf ok have vo: "map_of (cols (st ! a)) ''volume'' = Some (FloatCol (fcol (st ! a) ''volume''))"
    by (simp add: candle_frame_def is_floatD)
  have m: "map_of (cols f) ''ema9'' = Some (FloatCol e9)"
    "map_of (cols f) ''ema21'' = Some (FloatCol e21)"
    "map_of (cols f) ''rsi5'' = Some (FloatCol r5)"
    "map_of (cols f) ''atr14'' = Some (FloatCol a14)"
    "map_of (cols f) ''atr14_ma'' = Some (FloatCol m14)"
    "map_of (cols f) ''atr_spike'' = Some (BoolCol asp)"
    "map_of (cols f) ''vol_spike'' = Some (BoolCol vsp)"
    "map_of (cols f) ''close'' = Some (FloatCol (fcol (st ! a) ''close''))"
    "map_of (cols f) ''volume'' = Some (FloatCol (fcol (st ! a) ''volume''))"
    by (simp_all add: f_def update_conv' cl vo)
  have c: "fcol f ''ema9'' = e9" "fcol f ''ema21'' = e21" "fcol f ''rsi5'' = r5"
    "fcol f ''atr14'' = a14" "fcol f ''atr14_ma'' = m14" "bcol f ''atr_spike'' = asp"
    "bcol f ''vol_spike'' = vsp" "fcol f ''close'' = fcol (st ! a) ''close''"
    "fcol f ''volume'' = fcol (st ! a) ''volume''"
    by (simp_all add: fcol_def bcol_def m)
  have i1: "iloc f (- 1) = Inr \<lparr>name = index f ! (length (index f) - 1),
           cells = map (\<lambda>(key, c). (key, cell_at c (length (index f) - 1))) (cols f)\<rparr>"
    using iloc_run [OF okf, of 1] n idx by simp
  have i2: "iloc f (- 2) = Inr \<lparr>name = index f ! (length (index f) - 2),
           cells = map (\<lambda>(key, c). (key, cell_at c (length (index f) - 2))) (cols f)\<rparr>"
    using iloc_run [OF okf, of 2] n idx by simp
  have cond: "conditions
       \<lparr>name = l1, cells = map (\<lambda>(key, c). (key, cell_at c j1)) (cols f)\<rparr>
       \<lparr>name = l2, cells = map (\<lambda>(key, c). (key, cell_at c j2)) (cols f)\<rparr> =
     Inr \<lparr>signal =
          ((fgt (e9 ! j1) (e21 ! j1) \<and> fle (e9 ! j2) (e21 ! j2)
            \<or> fgt (fcol (st ! a) ''close'' ! j1) (e9 ! j1)
              \<and> fgt (fcol (st ! a) ''close'' ! j1) (e21 ! j1))
           \<and> fgt (r5 ! j1) (Fin 55) \<and> vsp ! j1 \<and> asp ! j1),
        ema_cross = (fgt (e9 ! j1) (e21 ! j1) \<and> fle (e9 ! j2) (e21 ! j2)),
        rsi5 = r5 ! j1, vol_spike = vsp ! j1, atr_spike = asp ! j1,
        close = fcol (st ! a) ''close'' ! j1, time = l1\<rparr>" for l1 l2 j1 j2
    unfolding conditions_def row_get_cells m
    by (auto simp add: bindE_def cell_at_def num_def Let_def)
  have det: "detect_momentum_signal st (Some a) =
      (bindE (iloc f (- 1)) (\<lambda>last_row.
       bindE (iloc f (- 2)) (\<lambda>prev_row.
       bindE (conditions last_row prev_row) (\<lambda>r. Inr (Some r)))), st @ [f])"
    using n by (simp add: detect_momentum_signal_def run f_def)
  have run': "compute_all st a = (Inr (length st), st @ [f])"
    by (simp add: run f_def)
  have asp': "bcol f ''atr_spike'' = map2 fgt a14 (map (\<lambda>x. fmul x (Fin (6 / 5))) m14)"
    by (simp add: c ind)
  define r where "r = \<lparr>signal =
          ((fgt (fcol f ''ema9'' ! (length (index f) - 1)) (fcol f ''ema21'' ! (length (index f) - 1))
            \<and> fle (fcol f ''ema9'' ! (length (index f) - 2)) (fcol f ''ema21'' ! (length (index f) - 2))
            \<or> fgt (fcol f ''close'' ! (length (index f) - 1)) (fcol f ''ema9'' ! (length (index f) - 1))
            \<and> fgt (fcol f ''close'' ! (length (index f) - 1)) (fcol f ''ema21'' ! (length (index f) - 1)))
           \<and> fgt (fcol f ''rsi5'' ! (length (index f) - 1)) (Fin 55)
           \<and> bcol f ''vol_spike'' ! (length (index f) - 1)
           \<and> bcol f ''atr_spike'' ! (length (index f) - 1)),
        ema_cross =
          (fgt (fcol f ''ema9'' ! (length (index f) - 1)) (fcol f ''ema21'' ! (length (index f) - 1))
            \<and> fle (fcol f ''ema9'' ! (length (index f) - 2)) (fcol f ''ema21'' ! (length (index f) - 2))),
        rsi5 = fcol f ''rsi5'' ! (length (index f) - 1),
        vol_spike = bcol f ''vol_spike'' ! (length (index f) - 1),
        atr_spike = bcol f ''atr_spike'' ! (length (index f) - 1),
        close = fcol f ''close'' ! (length (index f) - 1),
        time = index f ! (length (index f) - 1)\<rparr>"
  have det': "detect_momentum_signal st (Some a) = (Inr (Some r), st @ [f])"
    by (simp add: r_def det i1 i2 cond bindE_def c idx)
  from cf ok have lv: "length (fcol f ''volume'') = length (index f)"
    by (simp add: c idx candle_frame_def is_floatD)
  have la: "length a14 = length (index f)"
    by (simp add: len idx)
  show thesis
    by (rule that [OF run' idx c(8) c(9) c(1) c(2) c(3) c(4) c(5) asp' c(7) ind(1) ind(2)
          ind(3) ind(4) ind(5) ind(7) la lv det']) (simp_all add: r_def)
qed

lemma demo_candle: "candle_frame demo_frame \<and> length (index demo_frame) = 30"
  by (simp add: candle_frame_def frame_ok_def is_float_def demo_frame_def col_len_def)

lemma demo_eval:
  "fst (detect_momentum_signal [demo_frame] (Some 0)) =
     Inr (Some \<lparr>signal = True, ema_cross = True, rsi5 = Fin 100, vol_spike = True,
       atr_spike = True, close = Fin 110, time = ''latest''\<rparr>)"
  by code_simp

lemma flat_candle: "candle_frame flat_frame \<and> length (index flat_frame) = 30"
  by (simp add: candle_frame_def frame_ok_def is_float_def flat_frame_def col_len_def)

lemma flat_eval:
  "fst (detect_momentum_signal [flat_frame] (Some 0)) =
     Inr (Some \<lparr>signal = False, ema_cross = False, rsi5 = NaN, vol_spike = False,
       atr_spike = False, close = Fin 100, time = ''latest''\<rparr>)"
  by code_simp

section \<open>The signal\<close>

text \<open>
  Claim C1. For a candle frame of at least 30 rows, \<open>detect_momentum_signal\<close> returns a
  report whose \<open>signal\<close> is true exactly when, on the last row of the frame that
  \<open>compute_all\<close> built, (\<open>ema9 > ema21\<close> there and \<open>ema9 <= ema21\<close> on the row before,
  or \<open>close > ema9\<close> and \<open>close > ema21\<close>) and \<open>rsi5 > 55\<close> and \<open>vol_spike\<close> and
  \<open>atr_spike\<close> hold. The columns of that frame are the indicators of the candles given:
  \<open>ema\<close> with spans 9 and 21 and \<open>rsi\<close> with length 5 of \<open>close\<close>, \<open>volume_spike\<close> of
  \<open>volume\<close>, and \<open>atr\<close> with length 14 compared with 1.2 times its rolling mean.
\<close>

theorem signal_iff_conditions:
  assumes "a < length st" and "candle_frame (st ! a)" and "30 \<le> length (index (st ! a))"
  shows "\<exists>r st'. compute_all st a = (Inr (length st), st')
     \<and> detect_momentum_signal st (Some a) = (Inr (Some r), st')
     \<and> (let f = st' ! length st; i = length (index f) - 1; p = length (index f) - 2 in
         signal r =
           (((fgt (fcol f ''ema9'' ! i) (fcol f ''ema21'' ! i)
               \<and> fle (fcol f ''ema9'' ! p) (fcol f ''ema21'' ! p))
             \<or> (fgt (fcol f ''close'' ! i) (fcol f ''ema9'' ! i)
               \<and> fgt (fcol f ''close'' ! i) (fcol f ''ema21'' ! i)))
            \<and> fgt (fcol f ''rsi5'' ! i) (Fin 55)
            \<and> bcol f ''vol_spike'' ! i
            \<and> bcol f ''atr_spike'' ! i)
         \<and> index f = index (st ! a)
         \<and> fcol f ''close'' = fcol (st ! a) ''close''
         \<and> ema (FloatCol (fcol (st ! a) ''close'')) 9 = Inr (FloatCol (fcol f ''ema9''))
         \<and> ema (FloatCol (fcol (st ! a) ''close'')) 21 = Inr (FloatCol (fcol f ''ema21''))
         \<and> rsi (FloatCol (fcol (st ! a) ''close'')) 5 = Inr (FloatCol (fcol f ''rsi5''))
         \<and> volume_spike (FloatCol (fcol (st ! a) ''volume'')) 10 1.5
              = Inr (BoolCol (bcol f ''vol_spike''))
         \<and> atr (st ! a) 14 = Inr (FloatCol (fcol f ''atr14''))
         \<and> rolling_mean 14 (fcol f ''atr14'') = Inr (fcol f ''atr14_ma'')
         \<and> bcol f ''atr_spike''
              = map2 fgt (fcol f ''atr14'') (map (\<lambda>x. fmul x (Fin 1.2)) (fcol f ''atr14_ma'')))"
proof (rule detect_run [OF assms], goal_cases)
  case (1 e9 e21 r5 a14 m14 vsp f r)
  show ?case
    apply (rule exI [of _ r], rule exI [of _ "st @ [f]"])
    using 1(1) 1(2) 1(3) 1(20) 1(21) 1(12) 1(13) 1(14) 1(15) 1(16) 1(17) 1(10)
    by (simp add: Let_def 1(5) 1(6) 1(7) 1(8) 1(9) 1(11))
qed

theorem signal_iff_conditions_witness:
  "0 < length [demo_frame] \<and> candle_frame ([demo_frame] ! 0)
   \<and> 30 \<le> length (index ([demo_frame] ! 0))
   \<and> (\<exists>r st'. compute_all [demo_frame] 0 = (Inr (length [demo_frame]), st')
         \<and> detect_momentum_signal [demo_frame] (Some 0) = (Inr (Some r), st')
         \<and> index (st' ! length [demo_frame]) = index ([demo_frame] ! 0))
   \<and> fst (detect_momentum_signal [demo_frame] (Some 0)) =
       Inr (Some \<lparr>signal = True, ema_cross = True, rsi5 = Fin 100, vol_spike = True,
         atr_spike = True, close = Fin 110, time = ''latest''\<rparr>)
   \<and> fst (detect_momentum_signal [flat_frame] (Some 0)) =
       Inr (Some \<lparr>signal = False, ema_cross = False, rsi5 = NaN, vol_spike = False,
         atr_spike = False, close = Fin 100, time = ''latest''\<rparr>)"
proof -
  have h: "0 < length [demo_frame]" "candle_frame ([demo_frame] ! 0)"
    "30 \<le> length (index ([demo_frame] ! 0))"
    using demo_candle by simp_all
  from signal_iff_conditions [OF h]
  have "\<exists>r st'. compute_all [demo_frame] 0 = (Inr (length [demo_frame]), st')
         \<and> detect_momentum_signal [demo_frame] (Some 0) = (Inr (Some r), st')
         \<and> index (st' ! length [demo_frame]) = index ([demo_frame] ! 0)"
    by (auto simp: Let_def)
  then show ?thesis
    using h demo_eval flat_eval by (intro conjI)
qed



section \<open>The caller's frame\<close>

text \<open>
  Claim C10. \<open>detect_momentum_signal\<close> leaves the DataFrame it is given as it was, and
  every other object of the store: \<open>compute_all\<close> adds its columns to a copy, which is
  a new object. This holds for every frame, also where the computation raises.
\<close>

theorem detect_leaves_frames_unchanged:
  assumes "a < length st"
  shows "snd (detect_momentum_signal st (Some a)) ! a = st ! a
    \<and> take (length st) (snd (detect_momentum_signal st (Some a))) = st
    \<and> take (length st) (snd (compute_all st a)) = st"
proof -
  have t: "take (length st) (snd (detect_momentum_signal st (Some a))) = st"
    by (rule snd_detect)
  have "take (length st) (snd (detect_momentum_signal st (Some a))) ! a
      = snd (detect_momentum_signal st (Some a)) ! a"
    using assms by (intro nth_take)
  with t have "snd (detect_momentum_signal st (Some a)) ! a = st ! a"
    by simp
  moreover obtain g where "snd (compute_all st a) = st @ [g]"
    using snd_compute_all by blast
  ultimately show ?thesis using t by simp
qed

lemma demo_store:
  "length (snd (detect_momentum_signal [demo_frame] (Some 0))) = 2
   \<and> map fst (cols (snd (detect_momentum_signal [demo_frame] (Some 0)) ! 1)) =
       [''open'', ''high'', ''low'', ''close'', ''volume'', ''ema9'', ''ema21'', ''rsi5'',
        ''atr14'', ''atr14_ma'', ''atr_spike'', ''vol_spike'']"
  by code_simp

theorem detect_leaves_frames_unchanged_witness:
  "0 < length [demo_frame]
   \<and> snd (detect_momentum_signal [demo_frame] (Some 0)) ! 0 = [demo_frame] ! 0
   \<and> take (length [demo_frame]) (snd (detect_momentum_signal [demo_frame] (Some 0))) = [demo_frame]
   \<and> take (length [demo_frame]) (snd (compute_all [demo_frame] 0)) = [demo_frame]
   \<and> map fst (cols (snd (detect_momentum_signal [demo_frame] (Some 0)) ! 1)) =
       [''open'', ''high'', ''low'', ''close'', ''volume'', ''ema9'', ''ema21'', ''rsi5'',
        ''atr14'', ''atr14_ma'', ''atr_spike'', ''vol_spike'']"
proof -
  have h: "0 < length [demo_frame]" by simp
  show ?thesis
    using h detect_leaves_frames_unchanged [OF h] demo_store by simp
qed

section \<open>Undefined indicator values\<close>

lemma fgt_NaN [simp]: "fgt NaN x = False" "fgt x NaN = False"
  by (cases x; simp add: fgt_def)+

lemma fle_NaN [simp]: "fle NaN x = False" "fle x NaN = False"
  by (simp_all add: fle_def)

lemma fmul_NaN [simp]: "fmul NaN x = NaN"
  by simp

lemma rolling_mean_nth:
  assumes "rolling_mean w xs = Inr m" and "j < length xs"
  shows "m ! j = window_mean (nat w) xs j"
  using assms by (auto simp: rolling_mean_def split: if_splits)

lemma volume_spike_nth:
  assumes "volume_spike (FloatCol xs) w k = Inr (BoolCol bs)" and "j < length xs"
  shows "bs ! j = fgt (xs ! j) (fmul (window_mean (nat w) xs j) (Fin k))"
  using assms
  by (auto simp: volume_spike_def rolling_mean_def floats_def bindE_def split: if_splits)

text \<open>
  Claim C3. For a candle frame of at least 30 rows \<open>detect_momentum_signal\<close> returns a
  report and does not raise, and a \<open>NaN\<close> among the cells it reads never counts as
  true: with \<open>ema9\<close> or \<open>ema21\<close> undefined on the last row \<open>ema_cross\<close> and the price
  condition fail, so \<open>signal\<close> is false; with one of them undefined on the row before,
  \<open>ema_cross\<close> is false; with \<open>rsi5\<close> undefined \<open>signal\<close> is false; with \<open>atr14\<close> or
  its rolling mean undefined \<open>atr_spike\<close> is false; with the volume or its rolling mean
  undefined \<open>vol_spike\<close> is false. On every row whose rolling mean is undefined the
  flag is false, which is the case on the first 13 rows for \<open>atr_spike\<close> and on the
  first 9 rows for \<open>vol_spike\<close>.
\<close>

theorem nan_never_true:
  assumes "a < length st" and "candle_frame (st ! a)" and "30 \<le> length (index (st ! a))"
  shows "\<exists>r st'. detect_momentum_signal st (Some a) = (Inr (Some r), st')
     \<and> (let f = st' ! length st; n = length (index f); i = n - 1; p = n - 2 in
         (fcol f ''ema9'' ! i = NaN \<or> fcol f ''ema21'' ! i = NaN \<longrightarrow> \<not> ema_cross r \<and> \<not> signal r)
       \<and> (fcol f ''ema9'' ! p = NaN \<or> fcol f ''ema21'' ! p = NaN \<longrightarrow> \<not> ema_cross r)
       \<and> (fcol f ''rsi5'' ! i = NaN \<longrightarrow> \<not> signal r)
       \<and> (fcol f ''atr14'' ! i = NaN \<or> fcol f ''atr14_ma'' ! i = NaN \<longrightarrow>
            \<not> atr_spike r \<and> \<not> signal r)
       \<and> (fcol f ''volume'' ! i = NaN \<or> window_mean 10 (fcol f ''volume'') i = NaN \<longrightarrow>
            \<not> vol_spike r \<and> \<not> signal r)
       \<and> (\<forall>j<n. fcol f ''atr14_ma'' ! j = NaN \<longrightarrow> \<not> bcol f ''atr_spike'' ! j)
       \<and> (\<forall>j<n. j < 13 \<longrightarrow> fcol f ''atr14_ma'' ! j = NaN \<and> \<not> bcol f ''atr_spike'' ! j)
       \<and> (\<forall>j<n. j < 9 \<longrightarrow> \<not> bcol f ''vol_spike'' ! j))"
proof (rule detect_run [OF assms], goal_cases)
  case (1 e9 e21 r5 a14 m14 vsp f r)
  let ?n = "length (index f)"
  have n: "30 \<le> ?n" using 1(2) assms(3) by simp
  have lm: "length m14 = ?n"
    using 1(16) 1(18) by (auto simp: rolling_mean_def split: if_splits)
  have m14: "m14 ! j = window_mean 14 a14 j" if "j < ?n" for j
    using rolling_mean_nth [OF 1(16), of j] that 1(18) by simp
  have asp: "bcol f ''atr_spike'' ! j = fgt (a14 ! j) (fmul (m14 ! j) (Fin (6 / 5)))"
    if "j < ?n" for j
    using that 1(10) 1(18) lm by simp
  have vsp: "vsp ! j = fgt (fcol f ''volume'' ! j) (fmul (window_mean 10 (fcol f ''volume'') j) (Fin (3 / 2)))"
    if "j < ?n" for j
    using volume_spike_nth [OF 1(17), of j] that 1(4) 1(19) by simp
  have warm: "m14 ! j = NaN" if "j < ?n" "j < 13" for j
    using m14 [OF that(1)] that(2) by (simp add: window_mean_def)
  have vwarm: "\<not> vsp ! j" if "j < ?n" "j < 9" for j
    using vsp [OF that(1)] that(2) by (simp add: window_mean_def)
  have i: "?n - 1 < ?n" using n by simp
  show ?case
    apply (rule exI [of _ r], rule exI [of _ "st @ [f]"])
    using 1(20) 1(21) 1(22) 1(24) 1(25) asp [OF i] vsp [OF i] asp warm vwarm
    by (auto simp: Let_def 1(5) 1(6) 1(7) 1(8) 1(9) 1(11))
qed

theorem nan_never_true_witness:
  "0 < length [flat_frame] \<and> candle_frame ([flat_frame] ! 0)
   \<and> 30 \<le> length (index ([flat_frame] ! 0))
   \<and> (\<exists>r st'. detect_momentum_signal [flat_frame] (Some 0) = (Inr (Some r), st')
     \<and> (let f = st' ! length [flat_frame]; n = length (index f); i = n - 1; p = n - 2 in
         (fcol f ''ema9'' ! i = NaN \<or> fcol f ''ema21'' ! i = NaN \<longrightarrow> \<not> ema_cross r \<and> \<not> signal r)
       \<and> (fcol f ''ema9'' ! p = NaN \<or> fcol f ''ema21'' ! p = NaN \<longrightarrow> \<not> ema_cross r)
       \<and> (fcol f ''rsi5'' ! i = NaN \<longrightarrow> \<not> signal r)
       \<and> (fcol f ''atr14'' ! i = NaN \<or> fcol f ''atr14_ma'' ! i = NaN \<longrightarrow>
            \<not> atr_spike r \<and> \<not> signal r)
       \<and> (fcol f ''volume'' ! i = NaN \<or> window_mean 10 (fcol f ''volume'') i = NaN \<longrightarrow>
            \<not> vol_spike r \<and> \<not> signal r)
       \<and> (\<forall>j<n. fcol f ''atr14_ma'' ! j = NaN \<longrightarrow> \<not> bcol f ''atr_spike'' ! j)
       \<and> (\<forall>j<n. j < 13 \<longrightarrow> fcol f ''atr14_ma'' ! j = NaN \<and> \<not> bcol f ''atr_spike'' ! j)
       \<and> (\<forall>j<n. j < 9 \<longrightarrow> \<not> bcol f ''vol_spike'' ! j)))
   \<and> fst (detect_momentum_signal [flat_frame] (Some 0)) =
       Inr (Some \<lparr>signal = False, ema_cross = False, rsi5 = NaN, vol_spike = False,
         atr_spike = False, close = Fin 100, time = ''latest''\<rparr>)"
proof -
  have h: "0 < length [flat_frame]" "candle_frame ([flat_frame] ! 0)"
    "30 \<le> length (index ([flat_frame] ! 0))"
    using flat_candle by simp_all
  show ?thesis
    using h nan_never_true [OF h] flat_eval by simp
qed

section \<open>The range of rsi\<close>

lemma nn_clip_lower: "nn (clip_lower 0 x)"
  by (cases x) (simp_all add: clip_lower_def)

lemma nn_down: "nn (fmul (Fin (- 1)) (clip_upper 0 x))"
  by (cases x) (simp_all add: clip_upper_def)

lemma nn_step:
  assumes "nn w" "nn c" "0 \<le> ow" "0 < alpha"
  shows "nn (fdiv (fadd (fmul (Fin ow) w) (fmul (Fin alpha) c)) (Fin (ow + alpha)))"
proof -
  have d: "ow + alpha \<noteq> 0" "0 \<le> ow + alpha" using assms by simp_all
  show ?thesis
    using assms d by (cases w; cases c) (auto simp: zero_le_mult_iff zero_le_divide_iff)
qed

lemma nn_ewm_loop:
  assumes "0 < alpha" "alpha \<le> 1"
  shows "nn w \<Longrightarrow> 0 \<le> ow \<Longrightarrow> ow \<le> 1 \<Longrightarrow> list_all nn xs \<Longrightarrow>
     list_all nn (ewm_loop alpha w ow xs)"
proof (induction xs arbitrary: w ow)
  case Nil
  then show ?case by simp
next
  case (Cons c xs)
  define q where "q = ow * (1 - alpha)"
  define nw where "nw = (if alpha = 1 / 2 then 1 - q else alpha)"
  have q0: "0 \<le> q" unfolding q_def using Cons.prems(2) assms by simp
  have "q \<le> 1 * 1" unfolding q_def using Cons.prems(2,3) assms by (intro mult_mono) simp_all
  then have q1: "q \<le> 1" by simp
  have nw: "0 < nw"
  proof (cases "alpha = 1 / 2")
    case True
    have "q = ow * (1 / 2)" unfolding q_def by (simp only: True) simp
    also have "\<dots> \<le> 1 * (1 / 2)" using Cons.prems(3) by (intro mult_right_mono) simp_all
    finally have "q \<le> 1 / 2" by (simp only: mult_1)
    then show ?thesis using True by (simp add: nw_def)
  next
    case False
    then show ?thesis using assms(1) by (simp add: nw_def)
  qed
  have c: "nn c" and xs: "list_all nn xs" using Cons.prems(4) by simp_all
  have st: "nn (fdiv (fadd (fmul (Fin q) w) (fmul (Fin nw) c)) (Fin (q + nw)))"
    by (rule nn_step [OF Cons.prems(1) c q0 nw])
  have unf: "ewm_loop alpha w ow (c # xs) =
      (if w \<noteq> NaN then
         (if c \<noteq> NaN then
            (if w \<noteq> c
             then fdiv (fadd (fmul (Fin q) w) (fmul (Fin nw) c)) (Fin (q + nw)) #
                  ewm_loop alpha (fdiv (fadd (fmul (Fin q) w) (fmul (Fin nw) c)) (Fin (q + nw))) 1 xs
             else w # ewm_loop alpha w 1 xs)
          else w # ewm_loop alpha w q xs)
       else if c \<noteq> NaN then c # ewm_loop alpha c ow xs
       else NaN # ewm_loop alpha w ow xs)"
    by (simp only: ewm_loop.simps Let_def q_def nw_def if_distrib [of "\<lambda>w. w # ewm_loop alpha w 1 xs"])
  show ?case
    unfolding unf
    using Cons.prems(1,2,3) c xs st q0 q1
    by (auto intro!: Cons.IH)
qed

lemma nn_inf_to_nan: "nn x \<Longrightarrow> nn (inf_to_nan x)"
  by (cases x) (simp_all add: inf_to_nan_def)

lemma nn_ewm_core:
  "0 < alpha \<Longrightarrow> alpha \<le> 1 \<Longrightarrow> list_all nn ys \<Longrightarrow>
     list_all nn (case ys of [] \<Rightarrow> [] | x # rest \<Rightarrow> x # ewm_loop alpha x 1 rest)"
  by (cases ys) (auto intro: nn_ewm_loop)

lemma nn_ewm_mean:
  "0 < alpha \<Longrightarrow> alpha \<le> 1 \<Longrightarrow> list_all nn xs \<Longrightarrow> list_all nn (ewm_mean alpha xs)"
  unfolding ewm_mean_def
  by (intro nn_ewm_core) (simp_all add: list_all_iff nn_inf_to_nan)

lemma rsi_of_range: "nn u \<Longrightarrow> nn d \<Longrightarrow> in_rsi_range (rsi_of u d)"
  by (cases u; cases d) (auto simp: rsi_of_def fsub_def field_simps)

lemma rsi_of_infinity:
  "fsub (Fin 100) (fdiv (Fin 100) (fadd (Fin 1) PosInf)) = Fin 100
   \<and> fsub (Fin 100) (fdiv (Fin 100) (fadd (Fin 1) NegInf)) = Fin 100"
  by (simp add: fsub_def)

lemma rsi_of_zero_loss: "flt (Fin 0) u \<Longrightarrow> rsi_of u (Fin 0) = Fin 100"
  by (cases u) (auto simp: rsi_of_def fsub_def)

lemma fpos_step:
  assumes "fpos w" "fpos c" "0 \<le> ow" "0 < alpha"
  shows "fpos (fdiv (fadd (fmul (Fin ow) w) (fmul (Fin alpha) c)) (Fin (ow + alpha)))"
proof -
  obtain a b where w: "w = Fin a" "0 < a" and c: "c = Fin b" "0 < b"
    using assms(1,2) by (cases w; cases c) auto
  have "0 < ow * a + alpha * b"
    using assms(3,4) w(2) c(2) by (simp add: add_nonneg_pos)
  moreover have "0 < ow + alpha" using assms by simp
  ultimately show ?thesis by (simp add: w c)
qed

lemma fpos_ewm_loop:
  assumes "0 < alpha" "alpha \<le> 1"
  shows "w = NaN \<or> fpos w \<Longrightarrow> 0 \<le> ow \<Longrightarrow> ow \<le> 1 \<Longrightarrow> list_all fpos xs \<Longrightarrow>
     list_all fpos (ewm_loop alpha w ow xs)"
proof (induction xs arbitrary: w ow)
  case Nil
  then show ?case by simp
next
  case (Cons c xs)
  define q where "q = ow * (1 - alpha)"
  define nw where "nw = (if alpha = 1 / 2 then 1 - q else alpha)"
  have q0: "0 \<le> q" unfolding q_def using Cons.prems(2) assms by simp
  have "q \<le> 1 * 1" unfolding q_def using Cons.prems(2,3) assms by (intro mult_mono) simp_all
  then have q1: "q \<le> 1" by simp
  have nw: "0 < nw"
  proof (cases "alpha = 1 / 2")
    case True
    have "q = ow * (1 / 2)" unfolding q_def by (simp only: True) simp
    also have "\<dots> \<le> 1 * (1 / 2)" using Cons.prems(3) by (intro mult_right_mono) simp_all
    finally have "q \<le> 1 / 2" by (simp only: mult_1)
    then show ?thesis using True by (simp add: nw_def)
  next
    case False
    then show ?thesis using assms(1) by (simp add: nw_def)
  qed
  have c: "fpos c" "c \<noteq> NaN" and xs: "list_all fpos xs" using Cons.prems(4) by auto
  have unf: "ewm_loop alpha w ow (c # xs) =
      (if w \<noteq> NaN then
         (if w \<noteq> c
          then fdiv (fadd (fmul (Fin q) w) (fmul (Fin nw) c)) (Fin (q + nw)) #
               ewm_loop alpha (fdiv (fadd (fmul (Fin q) w) (fmul (Fin nw) c)) (Fin (q + nw))) 1 xs
          else w # ewm_loop alpha w 1 xs)
       else c # ewm_loop alpha c ow xs)"
    using c(2)
    by (simp only: ewm_loop.simps Let_def q_def nw_def) simp
  show ?case
  proof (cases "w = NaN")
    case True
    then show ?thesis unfolding unf using Cons.prems(2,3) c xs by (auto intro!: Cons.IH)
  next
    case False
    then have w: "fpos w" using Cons.prems(1) by simp
    have st: "fpos (fdiv (fadd (fmul (Fin q) w) (fmul (Fin nw) c)) (Fin (q + nw)))"
      by (rule fpos_step [OF w c(1) q0 nw])
    show ?thesis unfolding unf using False w c xs st by (auto intro!: Cons.IH)
  qed
qed

lemma map_inf_to_nan_fpos: "list_all fpos ys \<Longrightarrow> map inf_to_nan ys = ys"
proof (induction ys)
  case Nil
  then show ?case by simp
next
  case (Cons y ys)
  then show ?case by (cases y) (simp_all add: inf_to_nan_def)
qed

lemma map_inf_to_nan_zero: "list_all (\<lambda>x. x = Fin 0) ys \<Longrightarrow> map inf_to_nan ys = ys"
  by (induction ys) (simp_all add: inf_to_nan_def)

lemma zero_ewm_loop:
  "w = NaN \<or> w = Fin 0 \<Longrightarrow> list_all (\<lambda>x. x = Fin 0) xs \<Longrightarrow>
     list_all (\<lambda>x. x = Fin 0) (ewm_loop alpha w ow xs)"
  by (induction xs arbitrary: w ow) (auto simp: Let_def)

lemma diff_increasing:
  assumes "\<forall>i. Suc i < length cs \<longrightarrow> cs ! i < cs ! Suc i"
  shows "\<exists>ds. diff (map Fin cs) = NaN # ds \<and> length ds = length cs - 1 \<and> list_all fpos ds
     \<or> cs = []"
proof (cases cs)
  case Nil
  then show ?thesis by simp
next
  case (Cons c rest)
  have "list_all fpos (map2 fsub (map Fin rest) (map Fin cs))"
    unfolding list_all_length
  proof (intro allI impI)
    fix k assume k: "k < length (map2 fsub (map Fin rest) (map Fin cs))"
    then have k': "Suc k < length cs" using Cons by simp
    then have "cs ! k < cs ! Suc k" using assms by blast
    moreover have "cs ! Suc k = rest ! k" unfolding Cons by simp
    ultimately have lt: "cs ! k < rest ! k" by (simp only:)
    have kr: "k < length rest" using k' unfolding Cons by simp
    have "map2 fsub (map Fin rest) (map Fin cs) ! k = fsub (Fin (rest ! k)) (Fin (cs ! k))"
      using kr k' by simp
    then show "fpos (map2 fsub (map Fin rest) (map Fin cs) ! k)"
      using lt by (simp add: fsub_def)
  qed
  then show ?thesis using Cons by (simp add: diff_def)
qed

lemma fpos_clip_lower: "fpos d \<Longrightarrow> clip_lower 0 d = d"
  by (cases d) (simp_all add: clip_lower_def)

lemma fpos_down: "fpos d \<Longrightarrow> fmul (Fin (- 1)) (clip_upper 0 d) = Fin 0"
  by (cases d) (simp_all add: clip_upper_def)

lemma map_rsi_of:
  "map (\<lambda>r. fsub (Fin 100) (fdiv (Fin 100) (fadd (Fin 1) r))) (map2 fdiv us ds)
     = map2 rsi_of us ds"
  by (simp add: rsi_of_def case_prod_beta)

text \<open>
  Claim C8. For every series and every positive length, \<open>rsi\<close> returns a series of the
  same length whose defined values lie in [0, 100]. Where the smoothed down-move is 0
  and the smoothed up-move is positive the value is exactly 100: the division by zero
  gives an infinity, not an error. In particular a strictly increasing finite series
  gives 100 on every row after the first.
\<close>

theorem rsi_bounded:
  assumes "0 < len"
  shows "\<exists>ys. rsi (FloatCol xs) len = Inr (FloatCol ys) \<and> length ys = length xs
     \<and> (\<forall>i<length xs. ys ! i = NaN \<or> (\<exists>v. ys ! i = Fin v \<and> 0 \<le> v \<and> v \<le> 100))
     \<and> (\<forall>i<length xs.
          ewm_mean (1 / real_of_int len) (map (\<lambda>d. fmul (Fin (- 1)) (clip_upper 0 d)) (diff xs)) ! i
            = Fin 0
          \<and> flt (Fin 0) (ewm_mean (1 / real_of_int len) (map (clip_lower 0) (diff xs)) ! i)
          \<longrightarrow> ys ! i = Fin 100)
     \<and> (\<forall>cs. xs = map Fin cs \<and> (\<forall>i. Suc i < length cs \<longrightarrow> cs ! i < cs ! Suc i) \<longrightarrow>
          (\<forall>i<length xs. 0 < i \<longrightarrow> ys ! i = Fin 100))"
proof -
  let ?alpha = "1 / real_of_int len"
  let ?up = "map (clip_lower 0) (diff xs)"
  let ?down = "map (\<lambda>d. fmul (Fin (- 1)) (clip_upper 0 d)) (diff xs)"
  let ?ma_up = "ewm_mean ?alpha ?up"
  let ?ma_down = "ewm_mean ?alpha ?down"
  let ?ys = "map2 rsi_of ?ma_up ?ma_down"
  have alpha: "0 < ?alpha" "?alpha \<le> 1" using assms by simp_all
  have run: "rsi (FloatCol xs) len = Inr (FloatCol ?ys)"
    using assms unfolding rsi_def floats_def bindE_def Let_def map_rsi_of by simp
  have len: "length ?ma_up = length xs" "length ?ma_down = length xs" "length ?ys = length xs"
    by (simp_all add: length_ewm_mean length_diff)
  have nth: "?ys ! i = rsi_of (?ma_up ! i) (?ma_down ! i)" if "i < length xs" for i
    using that len by simp
  have nn_up: "list_all nn ?ma_up"
    by (intro nn_ewm_mean alpha) (simp add: list_all_iff nn_clip_lower)
  have nn_down': "list_all nn ?ma_down"
    by (intro nn_ewm_mean alpha) (simp add: list_all_iff nn_down)
  have range: "in_rsi_range (?ys ! i)" if "i < length xs" for i
    using that nn_up nn_down' len by (simp add: nth rsi_of_range list_all_length)
  have bound: "?ys ! i = NaN \<or> (\<exists>v. ?ys ! i = Fin v \<and> 0 \<le> v \<and> v \<le> 100)"
    if "i < length xs" for i
    using range [OF that] by (cases "?ys ! i") simp_all
  have zero_loss: "?ys ! i = Fin 100"
    if "i < length xs" "?ma_down ! i = Fin 0" "flt (Fin 0) (?ma_up ! i)" for i
    using that by (simp add: nth rsi_of_zero_loss)
  have incr: "?ys ! i = Fin 100"
    if xs: "xs = map Fin cs" and inc: "\<forall>i. Suc i < length cs \<longrightarrow> cs ! i < cs ! Suc i"
      and i: "i < length xs" "0 < i" for cs i
  proof -
    from i xs have "cs \<noteq> []" by auto
    with diff_increasing [OF inc] obtain ds where
      ds: "diff (map Fin cs) = NaN # ds" "length ds = length cs - 1" "list_all fpos ds"
      by blast
    have pos_up: "list_all fpos (map (clip_lower 0) ds)"
      using ds(3) by (simp add: list_all_iff fpos_clip_lower)
    have zero_down: "list_all (\<lambda>x. x = Fin 0) (map (\<lambda>d. fmul (Fin (- 1)) (clip_upper 0 d)) ds)"
      using ds(3) by (simp add: list_all_iff fpos_down)
    have "map (clip_lower 0) (diff xs) = NaN # map (clip_lower 0) ds"
      by (simp add: xs ds clip_lower_def)
    then have up: "?ma_up = NaN # ewm_loop ?alpha NaN 1 (map (clip_lower 0) ds)"
      by (simp only: ewm_mean_NaN_Cons [OF map_inf_to_nan_fpos [OF pos_up]])
    have "map (\<lambda>d. fmul (Fin (- 1)) (clip_upper 0 d)) (diff xs)
        = NaN # map (\<lambda>d. fmul (Fin (- 1)) (clip_upper 0 d)) ds"
      by (simp add: xs ds clip_upper_def)
    then have down: "?ma_down = NaN # ewm_loop ?alpha NaN 1 (map (\<lambda>d. fmul (Fin (- 1)) (clip_upper 0 d)) ds)"
      by (simp only: ewm_mean_NaN_Cons [OF map_inf_to_nan_zero [OF zero_down]])
    have pu: "list_all fpos (ewm_loop ?alpha NaN 1 (map (clip_lower 0) ds))"
      by (rule fpos_ewm_loop [OF alpha]) (simp_all add: pos_up)
    have zd: "list_all (\<lambda>x. x = Fin 0)
        (ewm_loop ?alpha NaN 1 (map (\<lambda>d. fmul (Fin (- 1)) (clip_upper 0 d)) ds))"
      by (rule zero_ewm_loop) (simp_all add: zero_down)
    obtain j where j: "i = Suc j" using i(2) by (cases i) auto
    have jl: "j < length ds" using i(1) j xs ds(2) by simp
    have "fpos (?ma_up ! i)"
      using pu jl unfolding up j by (simp add: list_all_length length_ewm_loop)
    then have "flt (Fin 0) (?ma_up ! i)" by (cases "?ma_up ! i") simp_all
    moreover have "?ma_down ! i = Fin 0"
      using zd jl unfolding down j by (simp add: list_all_length length_ewm_loop)
    ultimately show ?thesis using zero_loss [OF i(1)] by simp
  qed
  show ?thesis
    apply (rule exI [of _ ?ys])
    apply (intro conjI allI impI)
    subgoal by (rule run)
    subgoal by (rule len(3))
    subgoal for i by (rule bound)
    subgoal for i using zero_loss [of i] by simp
    subgoal for cs i using incr [of cs i] by simp
    done
qed

lemma rsi_eval:
  "rsi (FloatCol (map Fin [1, 2, 3, 4, 3, 5])) 5 =
     Inr (FloatCol [NaN, Fin 100, Fin 100, Fin 100, Fin 80, Fin (260 / 3)])
   \<and> rsi (FloatCol (map Fin [7, 7, 7])) 5 = Inr (FloatCol [NaN, NaN, NaN])"
  by code_simp

theorem rsi_bounded_witness:
  "(0::int) < 5
   \<and> rsi (FloatCol (map Fin [1, 2, 3, 4, 3, 5])) 5 =
       Inr (FloatCol [NaN, Fin 100, Fin 100, Fin 100, Fin 80, Fin (260 / 3)])
   \<and> rsi (FloatCol (map Fin [7, 7, 7])) 5 = Inr (FloatCol [NaN, NaN, NaN])
   \<and> (\<exists>ys. rsi (FloatCol (map Fin [1, 2, 3, 4])) 5 = Inr (FloatCol ys) \<and> length ys = 4
        \<and> ys ! 1 = Fin 100 \<and> ys ! 2 = Fin 100 \<and> ys ! 3 = Fin 100)"
proof -
  have h: "(0::int) < 5" by simp
  have inc: "\<forall>i. Suc i < length [1, 2, 3, 4 :: real] \<longrightarrow>
      [1, 2, 3, 4 :: real] ! i < [1, 2, 3, 4] ! Suc i"
    by (auto simp: less_Suc_eq nth_Cons')
  obtain ys where ys: "rsi (FloatCol (map Fin [1, 2, 3, 4])) 5 = Inr (FloatCol ys)"
      "length ys = length (map Fin [1, 2, 3, 4 :: real])"
      "\<forall>cs. map Fin [1, 2, 3, 4] = map Fin cs \<and> (\<forall>i. Suc i < length cs \<longrightarrow> cs ! i < cs ! Suc i) \<longrightarrow>
          (\<forall>i<length (map Fin [1, 2, 3, 4 :: real]). 0 < i \<longrightarrow> ys ! i = Fin 100)"
    using rsi_bounded [OF h, of "map Fin [1, 2, 3, 4]"] by blast
  from ys(3) inc have "\<forall>i<length (map Fin [1, 2, 3, 4 :: real]). 0 < i \<longrightarrow> ys ! i = Fin 100"
    by blast
  then have "ys ! 1 = Fin 100 \<and> ys ! 2 = Fin 100 \<and> ys ! 3 = Fin 100" by simp
  with ys(1,2) h rsi_eval show ?thesis by simp
qed

section \<open>Sending\<close>

text \<open>
  Claim C9. \<open>send_telegram_message\<close> raises exactly when the token or the chat id is
  missing or empty, and then nothing has been posted. With both present it does not
  raise: one request is posted and the result is true exactly when the answer is a
  response with status 200, false for any other status and for an exception of
  \<open>requests.post\<close>.
\<close>

theorem send_raises_iff_no_credentials:
  "((\<exists>e. fst (send_telegram_message post bot_token chat_id text) = Inl e)
      = (bot_token = None \<or> bot_token = Some [] \<or> chat_id = None \<or> chat_id = Some []))
   \<and> (\<forall>e. fst (send_telegram_message post bot_token chat_id text) = Inl e \<longrightarrow>
          e = ValueError \<and> snd (send_telegram_message post bot_token chat_id text) = [])
   \<and> (\<forall>token chat. bot_token = Some token \<and> chat_id = Some chat \<and> token \<noteq> [] \<and> chat \<noteq> [] \<longrightarrow>
          send_telegram_message post bot_token chat_id text =
            (Inr (post (''https://api.telegram.org/bot'' @ token @ ''/sendMessage'')
                    \<lparr>p_chat_id = chat, p_text = text, p_parse_mode = ''HTML''\<rparr> = Status 200),
             [(''https://api.telegram.org/bot'' @ token @ ''/sendMessage'',
               \<lparr>p_chat_id = chat, p_text = text, p_parse_mode = ''HTML''\<rparr>)]))"
  by (cases bot_token; cases chat_id)
     (auto simp: send_telegram_message_def Let_def split: response.splits)

theorem send_raises_iff_no_credentials_witness:
  "send_telegram_message (\<lambda>url p. Status 200) (Some ''123:abc'') (Some ''42'') ''hello'' =
     (Inr True, [(''https://api.telegram.org/bot123:abc/sendMessage'',
                  \<lparr>p_chat_id = ''42'', p_text = ''hello'', p_parse_mode = ''HTML''\<rparr>)])
   \<and> fst (send_telegram_message (\<lambda>url p. Status 403) (Some ''123:abc'') (Some ''42'') ''hello'')
       = Inr False
   \<and> fst (send_telegram_message (\<lambda>url p. Raised) (Some ''123:abc'') (Some ''42'') ''hello'')
       = Inr False
   \<and> send_telegram_message (\<lambda>url p. Status 200) (Some ''123:abc'') None ''hello''
       = (Inl ValueError, [])
   \<and> send_telegram_message (\<lambda>url p. Status 200) (Some '''') (Some ''42'') ''hello''
       = (Inl ValueError, [])"
  using send_raises_iff_no_credentials [of "\<lambda>url p. Status 200" "Some ''123:abc''" "Some ''42''" "''hello''"]
    send_raises_iff_no_credentials [of "\<lambda>url p. Status 403" "Some ''123:abc''" "Some ''42''" "''hello''"]
    send_raises_iff_no_credentials [of "\<lambda>url p. Raised" "Some ''123:abc''" "Some ''42''" "''hello''"]
  by (simp add: send_telegram_message_def)

section \<open>The cooldown\<close>

text \<open>
  Rounding to a double moves a value by at most half the spacing of the grid, and never
  across a grid point. Whole seconds below \<open>2 ^ 34\<close> in absolute value are grid points,
  and the spacing there is under two microseconds, so for such a cooldown the
  comparison of the rounded seconds decides as the comparison of the microseconds does.
\<close>

lemma round_even_le: "y \<le> of_int k \<Longrightarrow> round_even y \<le> k"
proof -
  assume "y \<le> of_int k"
  then have c: "\<lceil>y\<rceil> \<le> k" by (simp add: ceiling_le_iff)
  have "round_even y \<le> \<lceil>y\<rceil>"
    unfolding round_even_def Let_def by (auto simp: ceiling_altdef)
  with c show ?thesis by simp
qed

lemma round_even_ge: "of_int k \<le> y \<Longrightarrow> k \<le> round_even y"
proof -
  assume "of_int k \<le> y"
  then have c: "k \<le> \<lfloor>y\<rfloor>" by (simp add: le_floor_iff)
  have "\<lfloor>y\<rfloor> \<le> round_even y"
    unfolding round_even_def Let_def by auto
  with c show ?thesis by simp
qed

lemma round_even_near: "\<bar>of_int (round_even y) - y\<bar> \<le> 1 / 2"
  unfolding round_even_def Let_def by (auto simp: abs_le_iff)

lemma ulp_exp_le:
  assumes "\<bar>x\<bar> < 2 ^ k" and "1 \<le> k"
  shows "ulp_exp x \<le> int k - 53"
proof (cases "1 \<le> \<bar>x\<bar>")
  case True
  have "\<lfloor>\<bar>x\<bar>\<rfloor> < 2 ^ k"
    using assms(1) by (simp add: floor_less_iff)
  then have "bitlen \<lfloor>\<bar>x\<bar>\<rfloor> \<le> int k"
    by (simp add: bitlen_le_iff_power)
  then show ?thesis using True by (simp add: ulp_exp_def)
next
  case False
  have "0 \<le> bitlen (\<lceil>1 / \<bar>x\<bar>\<rceil> - 1)" by (rule bitlen_nonneg)
  then show ?thesis using False assms(2) by (simp add: ulp_exp_def)
qed

lemma ulp_big:
  assumes "2 ^ 53 \<le> \<bar>x\<bar>"
  shows "2 powi ulp_exp x \<le> \<bar>x\<bar> / 2 ^ 52" and "0 \<le> ulp_exp x"
proof -
  let ?n = "\<lfloor>\<bar>x\<bar>\<rfloor>"
  have one: "1 \<le> \<bar>x\<bar>" using assms by simp
  have n53: "2 ^ 53 \<le> ?n" using assms by (simp add: le_floor_iff)
  then have pos: "0 < ?n" by simp
  have b54: "54 \<le> bitlen ?n"
    using n53 by (simp add: bitlen_ge_iff_power)
  have e: "ulp_exp x = bitlen ?n - 53" using one by (simp add: ulp_exp_def)
  show "0 \<le> ulp_exp x" using b54 e by simp
  have "(2::int) ^ nat (bitlen ?n - 1) \<le> ?n" using bitlen_bounds [OF pos] by blast
  then have "real_of_int (2 ^ nat (bitlen ?n - 1)) \<le> real_of_int ?n"
    by (rule of_int_le_iff [THEN iffD2])
  also have "real_of_int ?n \<le> \<bar>x\<bar>" by simp
  finally have le: "(2::real) ^ nat (bitlen ?n - 1) \<le> \<bar>x\<bar>" by simp
  have "nat (bitlen ?n - 1) = nat (bitlen ?n - 53) + 52" using b54 by simp
  then have "(2::real) ^ nat (bitlen ?n - 1) = 2 ^ nat (bitlen ?n - 53) * 2 ^ 52"
    by (simp add: power_add)
  with le have "(2::real) ^ nat (bitlen ?n - 53) * 2 ^ 52 \<le> \<bar>x\<bar>" by simp
  then have "(2::real) ^ nat (bitlen ?n - 53) \<le> \<bar>x\<bar> / 2 ^ 52"
    by (simp add: pos_le_divide_eq)
  moreover have "(2::real) powi ulp_exp x = 2 ^ nat (bitlen ?n - 53)"
    using b54 e by (simp add: power_int_nonneg_exp)
  ultimately show "2 powi ulp_exp x \<le> \<bar>x\<bar> / 2 ^ 52" by simp
qed

lemma to_double_near:
  "x \<noteq> 0 \<Longrightarrow> \<bar>to_double x - x\<bar> \<le> 2 powi ulp_exp x / 2"
proof -
  assume x: "x \<noteq> 0"
  let ?u = "(2::real) powi ulp_exp x"
  have u: "0 < ?u" by (simp add: zero_less_power_int)
  have "\<bar>of_int (round_even (x / ?u)) - x / ?u\<bar> \<le> 1 / 2" by (rule round_even_near)
  then have "\<bar>of_int (round_even (x / ?u)) - x / ?u\<bar> * ?u \<le> 1 / 2 * ?u"
    using u by (intro mult_right_mono) simp_all
  moreover have "\<bar>of_int (round_even (x / ?u)) - x / ?u\<bar> * ?u
      = \<bar>of_int (round_even (x / ?u)) * ?u - x\<bar>"
  proof -
    have "\<bar>of_int (round_even (x / ?u)) - x / ?u\<bar> * ?u
        = \<bar>(of_int (round_even (x / ?u)) - x / ?u) * ?u\<bar>"
      using u by (simp add: abs_mult)
    also have "(of_int (round_even (x / ?u)) - x / ?u) * ?u
        = of_int (round_even (x / ?u)) * ?u - x"
      using u by (simp add: left_diff_distrib)
    finally show ?thesis .
  qed
  ultimately show ?thesis using x by (simp add: to_double_def)
qed

lemma ulp_le_pow:
  assumes "\<bar>x\<bar> < 2 ^ k" and "1 \<le> k"
  shows "(2::real) powi ulp_exp x \<le> 2 powi (int k - 53)"
  by (rule power_int_increasing [OF ulp_exp_le [OF assms]]) simp

lemma to_double_le:
  assumes le: "x \<le> of_int S" and S: "\<bar>S\<bar> < 2 ^ 34"
  shows "to_double x \<le> of_int S"
proof (cases "x = 0")
  case True
  then show ?thesis using le by (simp add: to_double_def)
next
  case False
  let ?e = "ulp_exp x" and ?u = "(2::real) powi ulp_exp x"
  have u: "0 < ?u" by (simp add: zero_less_power_int)
  show ?thesis
  proof (cases "\<bar>x\<bar> < 2 ^ 53")
    case True
    have e: "?e \<le> 0" using ulp_exp_le [OF True] by simp
    have inv: "1 / ?u = 2 ^ nat (- ?e)"
      using e by (simp add: power_int_def divide_simps)
    have "of_int S / ?u = real_of_int S * (1 / ?u)" by simp
    also have "\<dots> = of_int (S * 2 ^ nat (- ?e))" unfolding inv by simp
    finally have grid: "of_int S / ?u = of_int (S * 2 ^ nat (- ?e))" .
    have "x / ?u \<le> of_int S / ?u" using le u by (simp add: divide_right_mono)
    then have "round_even (x / ?u) \<le> S * 2 ^ nat (- ?e)"
      unfolding grid by (rule round_even_le)
    then have "real_of_int (round_even (x / ?u)) \<le> real_of_int (S * 2 ^ nat (- ?e))"
      by (rule of_int_le_iff [THEN iffD2])
    then have "real_of_int (round_even (x / ?u)) * ?u \<le> real_of_int (S * 2 ^ nat (- ?e)) * ?u"
      using u by (intro mult_right_mono) simp_all
    also have "real_of_int (S * 2 ^ nat (- ?e)) * ?u = of_int S / ?u * ?u"
      unfolding grid ..
    also have "\<dots> = of_int S" using u by simp
    finally show ?thesis using False by (simp add: to_double_def)
  next
    case big: False
    then have b: "2 ^ 53 \<le> \<bar>x\<bar>" by simp
    have "real_of_int S < 2 ^ 34" "- (2 ^ 34) < real_of_int S"
      using S by (simp_all add: abs_less_iff flip: of_int_less_iff)
    then have neg: "x \<le> - (2 ^ 53)" using le b by (simp add: abs_if split: if_splits)
    have "to_double x - x \<le> ?u / 2"
      using to_double_near [OF False] by linarith
    also have "?u / 2 \<le> \<bar>x\<bar> / 2 ^ 52 / 2"
      using ulp_big(1) [OF b] by simp
    finally have "to_double x \<le> x + \<bar>x\<bar> / 2 ^ 53" by simp
    also have "\<dots> = x * (1 - 1 / 2 ^ 53)" using neg by (simp add: algebra_simps)
    also have "\<dots> \<le> - (2 ^ 53) * (1 - 1 / 2 ^ 53)"
      using neg by (intro mult_right_mono) simp_all
    also have "\<dots> \<le> - (2 ^ 34)" by simp
    finally show ?thesis using \<open>- (2 ^ 34) < real_of_int S\<close> by simp
  qed
qed

lemma to_double_gt:
  assumes ge: "of_int S + 1 / 1000000 \<le> x" and S: "\<bar>S\<bar> < 2 ^ 34"
  shows "of_int S < to_double x"
proof (cases "x = 0")
  case True
  then show ?thesis using ge by (simp add: to_double_def)
next
  case False
  let ?e = "ulp_exp x" and ?u = "(2::real) powi ulp_exp x"
  have Sr: "real_of_int S < 2 ^ 34" "- (2 ^ 34) < real_of_int S"
    using S by (simp_all add: abs_less_iff flip: of_int_less_iff)
  have S1: "real_of_int S + 1 \<le> 2 ^ 34"
  proof -
    have "S + 1 \<le> 2 ^ 34" using S by simp
    then have "real_of_int (S + 1) \<le> real_of_int (2 ^ 34)" by (rule of_int_le_iff [THEN iffD2])
    then show ?thesis by simp
  qed
  have near: "x - ?u / 2 \<le> to_double x"
    using to_double_near [OF False] by linarith
  show ?thesis
  proof (cases "\<bar>x\<bar> < 2 ^ 53")
    case True
    show ?thesis
    proof (cases "of_int S + 1 \<le> x")
      case far: True
      have "?u \<le> 2 powi (int 53 - 53)" by (rule ulp_le_pow [OF True]) simp
      then have "?u \<le> 1" by simp
      then show ?thesis using near far by simp
    next
      case close: False
      then have "\<bar>x\<bar> < 2 ^ 34" using ge S1 Sr by (simp add: abs_less_iff)
      then have "?u \<le> 2 powi (int 34 - 53)" by (rule ulp_le_pow) simp
      also have "\<dots> = 1 / 2 ^ 19" by (simp add: power_int_def divide_simps)
      finally have "?u / 2 \<le> 1 / 2 ^ 20" by simp
      also have "\<dots> < 1 / 1000000" by simp
      finally show ?thesis using near ge by simp
    qed
  next
    case big: False
    then have b: "2 ^ 53 \<le> \<bar>x\<bar>" by simp
    then have pos: "2 ^ 53 \<le> x" using ge Sr by (simp add: abs_if split: if_splits)
    have "?u / 2 \<le> \<bar>x\<bar> / 2 ^ 52 / 2"
      using ulp_big(1) [OF b] by simp
    then have "x - \<bar>x\<bar> / 2 ^ 53 \<le> to_double x" using near by simp
    moreover have "x - \<bar>x\<bar> / 2 ^ 53 = x * (1 - 1 / 2 ^ 53)" using pos by (simp add: algebra_simps)
    moreover have "2 ^ 53 * (1 - 1 / 2 ^ 53) \<le> x * (1 - 1 / 2 ^ 53)"
      using pos by (intro mult_right_mono) simp_all
    moreover have "(2 ^ 34 :: real) \<le> 2 ^ 53 * (1 - 1 / 2 ^ 53)" by simp
    ultimately show ?thesis using Sr by simp
  qed
qed

lemma total_seconds_le:
  assumes "\<bar>m * 60\<bar> < 2 ^ 34"
  shows "(total_seconds d \<le> real_of_int m * 60) = (d \<le> m * 60000000)"
proof (cases "d \<le> m * 60000000")
  case True
  then have "real_of_int d \<le> real_of_int (m * 60000000)" by (rule of_int_le_iff [THEN iffD2])
  then have "real_of_int d / 1000000 \<le> of_int (m * 60)" by simp
  from to_double_le [OF this assms] show ?thesis using True by (simp add: total_seconds_def)
next
  case False
  then have "m * 60000000 + 1 \<le> d" by simp
  then have "real_of_int (m * 60000000 + 1) \<le> real_of_int d" by (rule of_int_le_iff [THEN iffD2])
  then have "of_int (m * 60) + 1 / 1000000 \<le> real_of_int d / 1000000" by simp
  from to_double_gt [OF this assms] show ?thesis using False by (simp add: total_seconds_def)
qed

text \<open>
  Claim C5, amended. With a stored record for the symbol that is an ISO text of a UTC (or
  naive) timestamp, and a cooldown of less than \<open>2 ^ 34\<close> seconds in absolute value,
  \<open>was_alert_sent_recent\<close> is true exactly when the time elapsed since that timestamp
  is at most \<open>minutes\<close> minutes (60000000 microseconds each): true at exactly that many
  minutes, false one microsecond later. Without a record for the symbol it is false.
\<close>

theorem recent_iff_within_cooldown:
  "(map_of d symbol = None \<longrightarrow>
      was_alert_sent_recent fromiso (utc now) (Content (Some (JObj d))) symbol minutes = Inr False)
   \<and> (map_of d symbol = Some (JStr s) \<and> fromiso s = Some ts
        \<and> (tzinfo ts = None \<or> tzinfo ts = Some 0) \<and> \<bar>minutes * 60\<bar> < 2 ^ 34 \<longrightarrow>
      was_alert_sent_recent fromiso (utc now) (Content (Some (JObj d))) symbol minutes
        = Inr (now - micros ts \<le> minutes * 60000000))"
proof (intro conjI impI)
  assume "map_of d symbol = None"
  then have "symbol \<notin> fst ` set d"
    by (simp add: map_of_eq_None_iff)
  then show "was_alert_sent_recent fromiso (utc now) (Content (Some (JObj d))) symbol minutes
      = Inr False"
    by (simp add: was_alert_sent_recent_def bindE_def)
next
  assume h: "map_of d symbol = Some (JStr s) \<and> fromiso s = Some ts
        \<and> (tzinfo ts = None \<or> tzinfo ts = Some 0) \<and> \<bar>minutes * 60\<bar> < 2 ^ 34"
  then have "symbol \<in> fst ` set d"
    by (metis map_of_eq_None_iff option.distinct(1))
  moreover have "(total_seconds (now - micros ts) \<le> real_of_int minutes * 60)
      = (now - micros ts \<le> minutes * 60000000)"
    using h by (intro total_seconds_le) simp
  ultimately show "was_alert_sent_recent fromiso (utc now) (Content (Some (JObj d))) symbol minutes
        = Inr (now - micros ts \<le> minutes * 60000000)"
    using h
    by (simp add: was_alert_sent_recent_def bindE_def parse_ts_def minus_dt_def utc_def)
qed

theorem recent_iff_within_cooldown_witness:
  "was_alert_sent_recent sample_fromisoformat (utc (1704067200000000 + 1800000000))
      (Content (Some (JObj [(''NIFTY'', JStr ''2024-01-01T00:00:00+00:00'')]))) ''NIFTY'' 30 = Inr True
   \<and> was_alert_sent_recent sample_fromisoformat (utc (1704067200000000 + 1800000001))
      (Content (Some (JObj [(''NIFTY'', JStr ''2024-01-01T00:00:00+00:00'')]))) ''NIFTY'' 30 = Inr False
   \<and> was_alert_sent_recent sample_fromisoformat (utc (1704067200000000 + 1800000000))
      (Content (Some (JObj [(''NIFTY'', JStr ''2024-01-01T00:00:00'')]))) ''NIFTY'' 30 = Inr True
   \<and> was_alert_sent_recent sample_fromisoformat (utc (1704067200000000 + 60000000))
      (Content (Some (JObj [(''NIFTY'', JStr ''2024-01-01T00:00:00+00:00'')]))) ''BANKNIFTY'' 30 = Inr False"
  using recent_iff_within_cooldown [where d = "[(''NIFTY'', JStr ''2024-01-01T00:00:00+00:00'')]"
      and symbol = "''NIFTY''" and s = "''2024-01-01T00:00:00+00:00''"
      and fromiso = sample_fromisoformat
      and ts = "\<lparr>micros = 1704067200000000, tzinfo = Some 0\<rparr>"
      and now = "1704067200000000 + 1800000000" and minutes = 30]
    recent_iff_within_cooldown [where d = "[(''NIFTY'', JStr ''2024-01-01T00:00:00+00:00'')]"
      and symbol = "''NIFTY''" and s = "''2024-01-01T00:00:00+00:00''"
      and fromiso = sample_fromisoformat
      and ts = "\<lparr>micros = 1704067200000000, tzinfo = Some 0\<rparr>"
      and now = "1704067200000000 + 1800000001" and minutes = 30]
    recent_iff_within_cooldown [where d = "[(''NIFTY'', JStr ''2024-01-01T00:00:00'')]"
      and symbol = "''NIFTY''" and s = "''2024-01-01T00:00:00''"
      and fromiso = sample_fromisoformat
      and ts = "\<lparr>micros = 1704067200000000, tzinfo = None\<rparr>"
      and now = "1704067200000000 + 1800000000" and minutes = 30]
    recent_iff_within_cooldown [where d = "[(''NIFTY'', JStr ''2024-01-01T00:00:00+00:00'')]"
      and symbol = "''BANKNIFTY''" and fromiso = sample_fromisoformat
      and now = "1704067200000000 + 60000000" and minutes = 30]
  by (simp add: sample_fromisoformat_def)

text \<open>
  The claim C5 as it is written fails in two places. The seconds of the difference are
  a double: with a cooldown of 300000000 minutes and a record of 2024-01-01T00:00:00
  UTC, one microsecond past the cooldown the seconds round to the cooldown itself and
  the answer is true. And \<open>replace(tzinfo=timezone.utc)\<close> keeps the clock fields of the
  record: a record written with the offset +05:30 is measured from its clock fields
  read as UTC, so six hours after it the answer for a cooldown of 30 minutes is true.
  In both cases \<open>minus_dt\<close> gives the time that has elapsed.
\<close>

theorem recent_beyond_cooldown:
  "was_alert_sent_recent sample_fromisoformat (utc (1704067200000000 + 18000000000000001))
      (Content (Some (JObj [(''NIFTY'', JStr ''2024-01-01T00:00:00+00:00'')]))) ''NIFTY'' 300000000
     = Inr True
   \<and> minus_dt (utc (1704067200000000 + 18000000000000001))
        \<lparr>micros = 1704067200000000, tzinfo = Some 0\<rparr>
     = Inr (300000000 * 60000000 + 1)
   \<and> sample_fromisoformat ''2024-01-01T05:30:00+05:30''
     = Some \<lparr>micros = 1704087000000000, tzinfo = Some 19800000000\<rparr>
   \<and> was_alert_sent_recent sample_fromisoformat (utc (1704067200000000 + 21600000000))
      (Content (Some (JObj [(''NIFTY'', JStr ''2024-01-01T05:30:00+05:30'')]))) ''NIFTY'' 30
     = Inr True
   \<and> minus_dt (utc (1704067200000000 + 21600000000))
        \<lparr>micros = 1704087000000000, tzinfo = Some 19800000000\<rparr>
     = Inr (360 * 60000000)"
  by code_simp

text \<open>
  Claim C6. What \<open>was_alert_sent_recent\<close> does on bad storage: an absent file and a text
  that is not JSON give false, but a record that is not an ISO text raises
  \<open>ValueError\<close>, a record that is not a string raises \<open>TypeError\<close>, and a file that
  cannot be opened raises \<open>OSError\<close>.
\<close>

theorem storage_failure_raises:
  "was_alert_sent_recent sample_fromisoformat (utc 1704067200000000)
      (Content (Some (JObj [(''NIFTY'', JStr ''garbage'')]))) ''NIFTY'' 30 = Inl ValueError
   \<and> was_alert_sent_recent sample_fromisoformat (utc 1704067200000000)
      (Content (Some (JObj [(''NIFTY'', JNum 5)]))) ''NIFTY'' 30 = Inl TypeError
   \<and> was_alert_sent_recent sample_fromisoformat (utc 1704067200000000)
      Unopenable ''NIFTY'' 30 = Inl OSError
   \<and> was_alert_sent_recent sample_fromisoformat (utc 1704067200000000)
      Absent ''NIFTY'' 30 = Inr False
   \<and> was_alert_sent_recent sample_fromisoformat (utc 1704067200000000)
      (Content None) ''NIFTY'' 30 = Inr False"
  by (simp add: was_alert_sent_recent_def bindE_def parse_ts_def sample_fromisoformat_def)

section \<open>The check cycle\<close>

lemma persist_records:
  "records f = Some d \<Longrightarrow>
     persist_alert f symbol ts = Inr (Content (Some (JObj (AList.update symbol (JStr ts) d))))"
  by (cases f rule: records.cases) (simp_all add: persist_alert_def bindE_def)

lemma good_storage_records:
  "good_storage fromiso f \<Longrightarrow> \<exists>d. records f = Some d \<and> list_all (\<lambda>(k, v). good_record fromiso v) d"
  by (cases f rule: records.cases) simp_all

lemma was_alert_ok:
  assumes "good_storage fromiso f"
  shows "\<exists>b. was_alert_sent_recent fromiso (utc t) f symbol m = Inr b"
proof (cases f rule: records.cases)
  case (3 d)
  show ?thesis
  proof (cases "symbol \<in> fst ` set d")
    case False
    then show ?thesis using 3 by (auto simp: was_alert_sent_recent_def bindE_def)
  next
    case True
    then obtain v where v: "map_of d symbol = Some v"
      by (metis map_of_eq_None_iff not_None_eq)
    then have "(symbol, v) \<in> set d" by (rule map_of_SomeD)
    then have "good_record fromiso v"
      using assms 3 by (auto simp: list_all_iff)
    then obtain s ts where "v = JStr s" "fromiso s = Some ts"
      by (cases v) auto
    then show ?thesis
      using 3 True v
      by (simp add: was_alert_sent_recent_def bindE_def parse_ts_def minus_dt_def utc_def)
  qed
qed (use assms in \<open>auto simp: was_alert_sent_recent_def\<close>)

lemma alert_ok:
  assumes "good_storage (fromisoformat e) (alerts_file w)" and "round_trip e"
  shows "\<exists>w'. alert e w symbol sig = (Inr (), w') \<and> good_storage (fromisoformat e) (alerts_file w')"
proof -
  obtain b where b: "was_alert_sent_recent (fromisoformat e) (utc (now_utc e (calls w)))
      (alerts_file w) symbol (alert_minutes_lockout e) = Inr b"
    using was_alert_ok [OF assms(1)] by blast
  obtain d where d: "records (alerts_file w) = Some d"
      "list_all (\<lambda>(k, v). good_record (fromisoformat e) v) d"
    using good_storage_records [OF assms(1)] by blast
  obtain res reqs where send: "send_telegram_message (http_post e (Suc (calls w)))
      (telegram_bot_token e) (telegram_chat_id e) (render e symbol sig) = (res, reqs)"
    by (cases "send_telegram_message (http_post e (Suc (calls w)))
      (telegram_bot_token e) (telegram_chat_id e) (render e symbol sig)")
  have good: "good_storage (fromisoformat e)
      (Content (Some (JObj (AList.update symbol (JStr (isoformat e x)) d))))" for x
    using d(2) assms(2) by (simp add: list_all_update round_trip_def)
  show ?thesis
  proof (cases b)
    case True
    then show ?thesis using b assms(1) by (simp add: alert_def tick_def)
  next
    case False
    show ?thesis
    proof (cases res)
      case (Inl err)
      then show ?thesis
        using b False send assms(1) by (simp add: alert_def tick_def)
    next
      case (Inr sent)
      then show ?thesis
        using b False send assms(1) good persist_records [OF d(1)]
        by (cases sent) (simp_all add: alert_def tick_def)
    qed
  qed
qed

lemma detect_ok:
  assumes "df = None \<or> (\<exists>f. df = Some f \<and> (length (index f) < 30 \<or> candle_frame f))"
  shows "\<exists>r. fst (detect_momentum_signal (case df of None \<Rightarrow> [] | Some f \<Rightarrow> [f])
                 (case df of None \<Rightarrow> None | Some f \<Rightarrow> Some 0)) = Inr r"
proof (cases df)
  case None
  then show ?thesis by (simp add: detect_momentum_signal_def)
next
  case (Some f)
  show ?thesis
  proof (cases "length (index f) < 30")
    case True
    then show ?thesis using Some by (simp add: detect_momentum_signal_def)
  next
    case False
    then have h: "0 < length [f]" "candle_frame ([f] ! 0)" "30 \<le> length (index ([f] ! 0))"
      using assms Some by simp_all
    show ?thesis
    proof (rule detect_run [OF h], goal_cases)
      case (1 e9 e21 r5 a14 m14 vsp g r)
      then show ?case using Some by simp
    qed
  qed
qed

lemma check_symbol_ok:
  assumes "good_source e" and "round_trip e" and "good_storage (fromisoformat e) (alerts_file w)"
  shows "\<exists>r w'. check_symbol e w symbol = (Inr r, w') \<and> entry_symbol r = symbol
     \<and> good_storage (fromisoformat e) (alerts_file w')"
proof (cases "fetch_candles e (calls w) symbol")
  case (Inl msg)
  then show ?thesis using assms(3) by (simp add: check_symbol_def tick_def)
next
  case (Inr df)
  have "df = None \<or> (\<exists>f. df = Some f \<and> (length (index f) < 30 \<or> candle_frame f))"
    using assms(1) Inr unfolding good_source_def by (cases df) auto
  from detect_ok [OF this] obtain r where
    r: "fst (detect_momentum_signal (case df of None \<Rightarrow> [] | Some f \<Rightarrow> [f])
                 (case df of None \<Rightarrow> None | Some f \<Rightarrow> Some 0)) = Inr r"
    by blast
  have g: "good_storage (fromisoformat e) (alerts_file (tick w))"
    using assms(3) by (simp add: tick_def)
  show ?thesis
  proof (cases r)
    case None
    then show ?thesis using Inr r g by (simp add: check_symbol_def Let_def)
  next
    case (Some sig)
    obtain w' where "alert e (tick w) symbol sig = (Inr (), w')"
        "good_storage (fromisoformat e) (alerts_file w')"
      using alert_ok [OF g assms(2)] by blast
    then show ?thesis using Inr r Some g by (auto simp: check_symbol_def Let_def)
  qed
qed

lemma run_loop_ok:
  assumes "good_source e" and "round_trip e"
  shows "good_storage (fromisoformat e) (alerts_file w) \<Longrightarrow>
     \<exists>rs w'. run_loop e w results symbols = (Inr (results @ rs), w')
       \<and> map entry_symbol rs = symbols \<and> good_storage (fromisoformat e) (alerts_file w')"
proof (induction symbols arbitrary: w results)
  case Nil
  then show ?case by simp
next
  case (Cons s symbols)
  obtain r w1 where r: "check_symbol e w s = (Inr r, w1)" "entry_symbol r = s"
      "good_storage (fromisoformat e) (alerts_file w1)"
    using check_symbol_ok [OF assms Cons.prems] by blast
  obtain rs w' where "run_loop e w1 (results @ [r]) symbols = (Inr ((results @ [r]) @ rs), w')"
      "map entry_symbol rs = symbols" "good_storage (fromisoformat e) (alerts_file w')"
    using Cons.IH [OF r(3)] by blast
  then show ?case using r by (intro exI [of _ "r # rs"] exI [of _ w']) simp
qed

lemma sample_good:
  "good_source (sample_env answer) \<and> round_trip (sample_env answer)"
  using demo_candle flat_candle
  by (auto simp: good_source_def round_trip_def sample_env_def sample_fromisoformat_def
      split: if_splits)




text \<open>
  On storage that is absent, unparseable or an object of ISO texts, and frames that are
  candle frames (or too short), \<open>run_check\<close> returns one entry per symbol, in the order
  of the list, whatever the candle source and Telegram answer: the calls of
  \<open>fetch_candles\<close> and \<open>send_telegram_message\<close> are guarded, and a failed fetch gives the
  error entry of its symbol.
\<close>

lemma run_check_on_good_storage:
  assumes "good_source e" and "round_trip e" and "good_storage (fromisoformat e) (alerts_file w)"
  shows "(\<exists>results w'. run_check e w symbols = (Inr results, w')
           \<and> map entry_symbol results = symbols)
     \<and> (\<forall>v s msg. fetch_candles e (calls v) s = Inl msg \<longrightarrow>
           check_symbol e v s = (Inr (ErrorEntry s msg), tick v))"
proof -
  obtain rs w' where "run_loop e w [] symbols = (Inr ([] @ rs), w')"
      "map entry_symbol rs = symbols"
    using run_loop_ok [OF assms] by blast
  then show ?thesis by (auto simp: run_check_def check_symbol_def)
qed

lemma sample_run:
  "fst (run_check (sample_env (Status 200)) (sample_world Absent) [''NIFTY'', ''MISSING'', ''FLAT''])
    = Inr [SignalEntry ''NIFTY'' (Some \<lparr>signal = True, ema_cross = True, rsi5 = Fin 100,
              vol_spike = True, atr_spike = True, close = Fin 110, time = ''latest''\<rparr>),
           ErrorEntry ''MISSING'' ''no data'',
           SignalEntry ''FLAT'' (Some \<lparr>signal = False, ema_cross = False, rsi5 = NaN,
              vol_spike = False, atr_spike = False, close = Fin 100, time = ''latest''\<rparr>)]"
  by code_simp

text \<open>
  Claim C7. \<open>run_check\<close> does not keep every exception inside: the calls of
  \<open>was_alert_sent_recent\<close> and \<open>persist_alert\<close> stand outside any \<open>try\<close>. With a stored
  record for a signalling symbol that is not an ISO text, the \<open>ValueError\<close> of
  \<open>was_alert_sent_recent\<close> leaves \<open>run_check\<close>; with storage that holds a JSON list, the
  alert is sent and the \<open>TypeError\<close> of \<open>persist_alert\<close> leaves it. In both cases no
  entry is returned for any symbol, the one processed before included.
\<close>

theorem run_check_raises:
  "fst (run_check (sample_env (Status 200))
      (sample_world (Content (Some (JObj [(''NIFTY'', JStr ''garbage'')]))))
      [''FLAT'', ''NIFTY'', ''FLAT''])
    = Inl ValueError
   \<and> fst (run_check (sample_env (Status 200))
      (sample_world (Content (Some (JArr [JNum 1]))))
      [''FLAT'', ''NIFTY'', ''FLAT''])
    = Inl TypeError"
  by code_simp

end
